theory Spec2Isabelle
  imports Main "HOL-Library.Sublist" "HOL-Library.Word"
begin

section \<open>JavaScript strings\<close>

text \<open>
  A JavaScript string is modelled as a \<^typ>\<open>string\<close>: a list of code units, each below
  256. On that range the built-ins used by the adapters behave as written here:
  \<^item> \<open>trim\<close> and the regular-expression class \<open>\s\<close> remove or match TAB, LF, VT, FF, CR,
    SPACE and NO-BREAK SPACE;
  \<open>\w\<close> is \<open>[A-Za-z0-9_]\<close>;
  \<^item> \<open>toUpperCase\<close> and \<open>toLowerCase\<close> are modelled on the ASCII letters. The only use the
    adapters make of the converted text is a comparison with ASCII literals
    (\<open>startsWith\<close>, \<open>includes\<close>), and no code unit in 128..255 converts to an ASCII
    letter, so these comparisons have the value the program computes.
\<close>

definition lowerLetters :: string where
  "lowerLetters = ''abcdefghijklmnopqrstuvwxyz''"

definition upperLetters :: string where
  "upperLetters = ''ABCDEFGHIJKLMNOPQRSTUVWXYZ''"

definition digitChars :: string where
  "digitChars = ''0123456789''"

definition isLetter :: "char \<Rightarrow> bool" where
  "isLetter c = (c \<in> set lowerLetters \<or> c \<in> set upperLetters)"

definition isDigit :: "char \<Rightarrow> bool" where
  "isDigit c = (c \<in> set digitChars)"

definition isWordChar :: "char \<Rightarrow> bool" where
  \<comment> \<open>the class \<open>\w\<close>\<close>
  "isWordChar c = (isLetter c \<or> isDigit c \<or> c = CHR ''_'')"

definition whiteSpaceChars :: string where
  "whiteSpaceChars = [CHR 0x09, CHR 0x0A, CHR 0x0B, CHR 0x0C, CHR 0x0D, CHR 0x20, CHR 0xA0]"

definition isWhiteSpace :: "char \<Rightarrow> bool" where
  \<comment> \<open>the class \<open>\s\<close>, and what \<open>trim\<close> strips\<close>
  "isWhiteSpace c = (c \<in> set whiteSpaceChars)"

definition toUpperChar :: "char \<Rightarrow> char" where
  "toUpperChar c = (case map_of (zip lowerLetters upperLetters) c of Some u \<Rightarrow> u | None \<Rightarrow> c)"

definition toLowerChar :: "char \<Rightarrow> char" where
  "toLowerChar c = (case map_of (zip upperLetters lowerLetters) c of Some l \<Rightarrow> l | None \<Rightarrow> c)"

definition toUpperCase :: "string \<Rightarrow> string" where
  "toUpperCase s = map toUpperChar s"

definition toLowerCase :: "string \<Rightarrow> string" where
  "toLowerCase s = map toLowerChar s"

definition trim :: "string \<Rightarrow> string" where
  "trim s = rev (dropWhile isWhiteSpace (rev (dropWhile isWhiteSpace s)))"

definition startsWith :: "string \<Rightarrow> string \<Rightarrow> bool" where
  "startsWith s p = (take (length p) s = p)"

fun includesStr :: "string \<Rightarrow> string \<Rightarrow> bool" where
  "includesStr [] sub = (sub = [])"
| "includesStr (c # cs) sub = (startsWith (c # cs) sub \<or> includesStr cs sub)"

fun join :: "'a list \<Rightarrow> 'a list list \<Rightarrow> 'a list" where
  "join sep [] = []"
| "join sep [x] = x"
| "join sep (x # y # ys) = x @ sep @ join sep (y # ys)"

section \<open>Regular expressions\<close>

text \<open>
  The regular expressions of the adapters are sequences of one-character atoms, some
  of them starred, between anchors. A pattern is a list of items; \<open>re_match\<close> matches a
  pattern at one position, knowing the character before it (for \<open>^\<close> and \<open>\b\<close>), and
  \<open>re_test\<close> is \<open>RegExp.prototype.test\<close>: a match at some position. No pattern of the
  program has the \<open>m\<close> flag, so \<open>^\<close> and \<open>$\<close> are the two ends of the input.
\<close>

datatype atom =
    Chr char                  \<comment> \<open>a literal character\<close>
  | ChrI char                 \<comment> \<open>a literal character under the \<open>i\<close> flag\<close>
  | Cls "char \<Rightarrow> bool"         \<comment> \<open>a character class\<close>

datatype item =
    One atom
  | Star atom
  | Plus atom
  | Bol                       \<comment> \<open>\<open>^\<close>\<close>
  | Eol                       \<comment> \<open>\<open>$\<close>\<close>
  | Wb                        \<comment> \<open>\<open>\b\<close>\<close>

fun atom_ok :: "atom \<Rightarrow> char \<Rightarrow> bool" where
  "atom_ok (Chr k) c = (c = k)"
| "atom_ok (ChrI k) c = (toUpperChar c = toUpperChar k)"
| "atom_ok (Cls P) c = P c"

fun wordBefore :: "char option \<Rightarrow> bool" where
  "wordBefore None = False"
| "wordBefore (Some c) = isWordChar c"

fun wordAfter :: "string \<Rightarrow> bool" where
  "wordAfter [] = False"
| "wordAfter (c # cs) = isWordChar c"

fun re_match :: "item list \<Rightarrow> char option \<Rightarrow> string \<Rightarrow> bool" where
  "re_match [] prev s = True"
| "re_match (One a # r) prev [] = False"
| "re_match (One a # r) prev (c # cs) = (atom_ok a c \<and> re_match r (Some c) cs)"
| "re_match (Star a # r) prev [] = re_match r prev []"
| "re_match (Star a # r) prev (c # cs) =
     ((atom_ok a c \<and> re_match (Star a # r) (Some c) cs) \<or> re_match r prev (c # cs))"
| "re_match (Plus a # r) prev [] = False"
| "re_match (Plus a # r) prev (c # cs) = (atom_ok a c \<and> re_match (Star a # r) (Some c) cs)"
| "re_match (Bol # r) prev s = (prev = None \<and> re_match r prev s)"
| "re_match (Eol # r) prev s = (s = [] \<and> re_match r prev s)"
| "re_match (Wb # r) prev s = (wordBefore prev \<noteq> wordAfter s \<and> re_match r prev s)"

fun re_search :: "item list \<Rightarrow> char option \<Rightarrow> string \<Rightarrow> bool" where
  "re_search r prev [] = re_match r prev []"
| "re_search r prev (c # cs) = (re_match r prev (c # cs) \<or> re_search r (Some c) cs)"

definition re_test :: "item list \<Rightarrow> string \<Rightarrow> bool" where
  "re_test r s = re_search r None s"

section \<open>Identifier validator and quoter (sqlite-mcp)\<close>

datatype identKind = Table | Column | Schema

fun kindName :: "identKind \<Rightarrow> string" where
  "kindName Table = ''table''"
| "kindName Column = ''column''"
| "kindName Schema = ''schema''"

definition strictIdentRe :: "item list" where
  \<comment> \<open>\<open>/^[a-zA-Z_][a-zA-Z0-9_]*$/\<close>\<close>
  "strictIdentRe =
     [Bol, One (Cls (\<lambda>c. isLetter c \<or> c = CHR ''_'')),
      Star (Cls (\<lambda>c. isLetter c \<or> isDigit c \<or> c = CHR ''_'')), Eol]"

definition looseIdentRe :: "item list" where
  \<comment> \<open>\<open>/^[a-zA-Z0-9_ -]+$/\<close>\<close>
  "looseIdentRe =
     [Bol, Plus (Cls (\<lambda>c. isLetter c \<or> isDigit c \<or> c = CHR ''_'' \<or> c = CHR '' '' \<or> c = CHR ''-'')),
      Eol]"

definition validateIdentifier :: "string \<Rightarrow> identKind \<Rightarrow> string + string" where
  "validateIdentifier name kind =
     (if \<not> re_test strictIdentRe name then
        (if \<not> re_test looseIdentRe name then
           Inl (''Invalid '' @ kindName kind @ '' name: contains disallowed characters'')
         else Inr name)
      else Inr name)"

fun replaceAllQuotes :: "string \<Rightarrow> string" where
  \<comment> \<open>\<open>name.replace(/"/g, '""')\<close>\<close>
  "replaceAllQuotes [] = []"
| "replaceAllQuotes (c # cs) =
     (if c = CHR 0x22 then CHR 0x22 # CHR 0x22 # replaceAllQuotes cs else c # replaceAllQuotes cs)"

definition quoteIdentifier :: "string \<Rightarrow> string" where
  "quoteIdentifier name = [CHR 0x22] @ replaceAllQuotes name @ [CHR 0x22]"

text \<open>
  The identifier-quoting grammar of the specification, as a parser: an opening double
  quote, then characters in which a doubled double quote stands for one double quote,
  then the closing double quote at the end of the input. Anything else is not a quoted
  identifier.
\<close>

fun parseQuotedBody :: "string \<Rightarrow> string option" where
  "parseQuotedBody [] = None"
| "parseQuotedBody [c] = (if c = CHR 0x22 then Some [] else None)"
| "parseQuotedBody (c # d # cs) =
     (if c = CHR 0x22 then
        (if d = CHR 0x22 then map_option ((#) CHR 0x22) (parseQuotedBody cs) else None)
      else map_option ((#) c) (parseQuotedBody (d # cs)))"

fun parseQuotedIdentifier :: "string \<Rightarrow> string option" where
  "parseQuotedIdentifier [] = None"
| "parseQuotedIdentifier (c # cs) = (if c = CHR 0x22 then parseQuotedBody cs else None)"

section \<open>Query policy gate and result windower (sqlite-mcp)\<close>

text \<open>
  A thrown \<open>Error\<close> is the left summand of a sum, carrying the error's message; a
  function that returns normally yields the right summand.
\<close>

definition keywordRe :: "string \<Rightarrow> item list" where
  \<comment> \<open>\<open>new RegExp(`\\b${keyword}\\b`, 'i')\<close>\<close>
  "keywordRe keyword = [Wb] @ map (\<lambda>k. One (ChrI k)) keyword @ [Wb]"

fun firstForbidden :: "string list \<Rightarrow> string \<Rightarrow> string option" where
  \<comment> \<open>the loop \<open>for (const keyword of dangerous)\<close>: the first keyword whose pattern matches\<close>
  "firstForbidden [] sql = None"
| "firstForbidden (keyword # rest) sql =
     (if re_test (keywordRe keyword) sql then Some keyword else firstForbidden rest sql)"

definition sqliteDangerous :: "string list" where
  "sqliteDangerous =
     [''INSERT'', ''UPDATE'', ''DELETE'', ''DROP'', ''ALTER'', ''CREATE'',
      ''ATTACH'', ''DETACH'', ''REPLACE'', ''TRUNCATE'',
      ''PRAGMA'', ''VACUUM'', ''REINDEX'', ''ANALYZE'']"

definition multiStatementRe :: "item list" where
  \<comment> \<open>\<open>/;[\s]*\S/\<close>\<close>
  "multiStatementRe =
     [One (Chr CHR '';''), Star (Cls isWhiteSpace), One (Cls (\<lambda>c. \<not> isWhiteSpace c))]"

definition readOnlyCheck :: "string \<Rightarrow> string + unit" where
  \<comment> \<open>the body of \<open>if (READ_ONLY) { ... }\<close> in \<open>executeQuery\<close>\<close>
  "readOnlyCheck sql =
     (let trimmed = trim sql;
          upper = toUpperCase trimmed
      in if \<not> startsWith upper ''SELECT'' \<and> \<not> startsWith upper ''WITH''
            \<and> \<not> startsWith upper ''EXPLAIN'' then
           Inl ''Only SELECT, WITH, and EXPLAIN queries are allowed in read-only mode''
         else
           (case firstForbidden sqliteDangerous sql of
              Some keyword \<Rightarrow> Inl (''Query contains forbidden keyword: '' @ keyword)
            | None \<Rightarrow>
                if re_test multiStatementRe sql then Inl ''Multiple statements are not allowed''
                else Inr ()))"

definition sliceTo :: "'a list \<Rightarrow> int \<Rightarrow> 'a list" where
  \<comment> \<open>\<open>xs.slice(0, n)\<close>: a negative end counts from the end of the array\<close>
  "sliceTo xs n = (if n < 0 then take (nat (int (length xs) + n)) xs else take (nat n) xs)"

record 'row QueryResult =
  columns :: "string list"
  rows :: "'row list"
  rowCount :: nat
  truncated :: bool

text \<open>
  What \<open>executeQuery\<close> reads from outside: the two configuration constants, the outcome
  of \<open>getDatabase()\<close>, the engine (\<open>database.prepare(sql).all()\<close>, which returns the
  rows or throws) and \<open>Object.keys\<close> on a row.
\<close>

record 'row sqliteEnv =
  READ_ONLY :: bool
  MAX_ROWS :: int
  getDatabase :: "string + unit"
  prepareAll :: "string \<Rightarrow> string + 'row list"
  objectKeys :: "'row \<Rightarrow> string list"

definition windowRows :: "'row sqliteEnv \<Rightarrow> 'row list \<Rightarrow> 'row QueryResult" where
  \<comment> \<open>the statements of \<open>executeQuery\<close> between \<open>stmt.all()\<close> and \<open>return\<close>\<close>
  "windowRows env allRows =
     (let truncated = int (length allRows) > MAX_ROWS env;
          limitedRows = sliceTo allRows (MAX_ROWS env);
          columns = (case limitedRows of [] \<Rightarrow> [] | r # _ \<Rightarrow> objectKeys env r)
      in \<lparr>columns = columns, rows = limitedRows, rowCount = length allRows,
          truncated = truncated\<rparr>)"

definition executeQuery :: "'row sqliteEnv \<Rightarrow> string \<Rightarrow> string + 'row QueryResult" where
  "executeQuery env sql =
     (case getDatabase env of
        Inl e \<Rightarrow> Inl e
      | Inr _ \<Rightarrow>
          (case (if READ_ONLY env then readOnlyCheck sql else Inr ()) of
             Inl e \<Rightarrow> Inl e
           | Inr _ \<Rightarrow>
               (case prepareAll env sql of
                  Inl e \<Rightarrow> Inl (''Query failed: '' @ e)
                | Inr allRows \<Rightarrow> Inr (windowRows env allRows))))"

section \<open>Query policy gate and row cap (postgres-mcp, \<open>pg_query\<close>)\<close>

definition pgDangerous :: "string list" where
  "pgDangerous =
     [''insert'', ''update'', ''delete'', ''drop'', ''alter'', ''create'', ''truncate'',
      ''grant'', ''revoke'', ''copy'']"

record response =
  textOut :: string
  isError :: bool

fun showNat :: "nat \<Rightarrow> string" where
  "showNat n = (if n < 10 then [digitChars ! n] else showNat (n div 10) @ [digitChars ! (n mod 10)])"

definition showInt :: "int \<Rightarrow> string" where
  \<comment> \<open>\<open>`${limit}`\<close> for an integer below \<open>10^21\<close> in absolute value; the template literal
      writes larger numbers with an exponent and fractions with a point, which are not
      in the model\<close>
  "showInt i = (if i < 0 then CHR ''-'' # showNat (nat (- i)) else showNat (nat i))"

text \<open>
  What the \<open>pg_query\<close> branch reads from outside: \<open>pool.connect()\<close> and
  \<open>client.query(text)\<close>, each returning or throwing, and the JSON rendering of a result.
  The branch returns its response together with the statements it sent to the client,
  in order.
\<close>

record 'res pgEnv =
  poolConnect :: "string + unit"
  clientQuery :: "string \<Rightarrow> string + 'res"
  renderResult :: "'res \<Rightarrow> string"

definition pgGate :: "string \<Rightarrow> response option" where
  \<comment> \<open>the two early returns of \<open>pg_query\<close>: keyword scan first, leading keyword second\<close>
  "pgGate query =
     (let trimmedQuery = toLowerCase (trim query)
      in case firstForbidden pgDangerous query of
           Some keyword \<Rightarrow>
             Some \<lparr>textOut = ''Error: Query contains forbidden keyword: '' @ toUpperCase keyword,
                   isError = True\<rparr>
         | None \<Rightarrow>
             if \<not> startsWith trimmedQuery ''select'' \<and> \<not> startsWith trimmedQuery ''with'' then
               Some \<lparr>textOut = ''Error: Only SELECT queries are allowed for safety. Use pg_describe_table for schema info.'',
                     isError = True\<rparr>
             else None)"

definition pgSafeQuery :: "string \<Rightarrow> int \<Rightarrow> string" where
  "pgSafeQuery query limit =
     (let trimmedQuery = toLowerCase (trim query)
      in if \<not> includesStr trimmedQuery ''limit'' then query @ '' LIMIT '' @ showInt limit
         else query)"

definition pgTransaction :: "'res pgEnv \<Rightarrow> string \<Rightarrow> (string + response) \<times> string list" where
  \<comment> \<open>the inner \<open>try / catch / finally\<close>: on any failure \<open>ROLLBACK\<close> is sent and the error
      rethrown, unless \<open>ROLLBACK\<close> itself throws, which then is the error;
      \<open>client.release()\<close> is taken not to throw\<close>
  "pgTransaction env safeQuery =
     (let rollback = (\<lambda>e sent.
            case clientQuery env ''ROLLBACK'' of
              Inl e' \<Rightarrow> (Inl e', sent @ [''ROLLBACK''])
            | Inr _ \<Rightarrow> (Inl e, sent @ [''ROLLBACK'']))
      in case clientQuery env ''BEGIN TRANSACTION READ ONLY'' of
           Inl e \<Rightarrow> rollback e [''BEGIN TRANSACTION READ ONLY'']
         | Inr _ \<Rightarrow>
             (case clientQuery env safeQuery of
                Inl e \<Rightarrow> rollback e [''BEGIN TRANSACTION READ ONLY'', safeQuery]
              | Inr result \<Rightarrow>
                  (case clientQuery env ''COMMIT'' of
                     Inl e \<Rightarrow> rollback e [''BEGIN TRANSACTION READ ONLY'', safeQuery, ''COMMIT'']
                   | Inr _ \<Rightarrow>
                       (Inr \<lparr>textOut = renderResult env result, isError = False\<rparr>,
                        [''BEGIN TRANSACTION READ ONLY'', safeQuery, ''COMMIT'']))))"

definition pg_query :: "'res pgEnv \<Rightarrow> string \<Rightarrow> int option \<Rightarrow> response \<times> string list" where
  \<comment> \<open>\<open>case 'pg_query'\<close> inside the handler's \<open>try\<close>, with the handler's \<open>catch\<close>\<close>
  "pg_query env query limitArg =
     (let limit = (case limitArg of None \<Rightarrow> 100 | Some l \<Rightarrow> l)
      in case pgGate query of
           Some denied \<Rightarrow> (denied, [])
         | None \<Rightarrow>
             (let safeQuery = pgSafeQuery query limit
              in case poolConnect env of
                   Inl e \<Rightarrow> (\<lparr>textOut = ''Database error: '' @ e, isError = True\<rparr>, [])
                 | Inr _ \<Rightarrow>
                     (case pgTransaction env safeQuery of
                        (Inl e, sent) \<Rightarrow> (\<lparr>textOut = ''Database error: '' @ e, isError = True\<rparr>, sent)
                      | (Inr ok, sent) \<Rightarrow> (ok, sent))))"

section \<open>Paths (\<open>node:path\<close>, POSIX) and the path confinement resolver (filesystem-mcp)\<close>

text \<open>
  \<open>path.resolve\<close> is Node's: the arguments are taken from the right until one is
  absolute, the working directory standing behind the first; the result is normalised
  segment by segment (\<open>normalizeString\<close>): empty segments and \<open>.\<close> vanish, \<open>..\<close> removes
  the segment before it, and is dropped at the root of an absolute path.
\<close>

fun splitOn :: "char \<Rightarrow> string \<Rightarrow> string list" where
  "splitOn sep [] = [[]]"
| "splitOn sep (c # cs) =
     (if c = sep then [] # splitOn sep cs
      else (case splitOn sep cs of seg # segs \<Rightarrow> (c # seg) # segs | [] \<Rightarrow> [[c]]))"

definition normStep :: "bool \<Rightarrow> string list \<Rightarrow> string \<Rightarrow> string list" where
  "normStep allowAboveRoot res seg =
     (if seg = [] \<or> seg = ''.'' then res
      else if seg = ''..'' then
        (if res \<noteq> [] \<and> last res \<noteq> ''..'' then butlast res
         else if allowAboveRoot then res @ [''..'']
         else res)
      else res @ [seg])"

definition normalizeString :: "string \<Rightarrow> bool \<Rightarrow> string" where
  "normalizeString path allowAboveRoot =
     join ''/'' (foldl (normStep allowAboveRoot) [] (splitOn CHR ''/'' path))"

fun resolveLoop :: "string list \<Rightarrow> string \<Rightarrow> string \<times> bool" where
  \<comment> \<open>the arguments from the right, the working directory last; stops at an absolute one\<close>
  "resolveLoop [] resolvedPath = (resolvedPath, False)"
| "resolveLoop (path # earlier) resolvedPath =
     (if path = [] then resolveLoop earlier resolvedPath
      else if hd path = CHR ''/'' then (path @ ''/'' @ resolvedPath, True)
      else resolveLoop earlier (path @ ''/'' @ resolvedPath))"

definition pathResolve :: "string \<Rightarrow> string list \<Rightarrow> string" where
  "pathResolve cwd args =
     (case resolveLoop (rev args @ [cwd]) [] of
        (resolvedPath, resolvedAbsolute) \<Rightarrow>
          (let normalized = normalizeString resolvedPath (\<not> resolvedAbsolute)
           in if resolvedAbsolute then CHR ''/'' # normalized
              else if normalized \<noteq> [] then normalized else ''.''))"

fun getSubstitution :: "string \<Rightarrow> string \<Rightarrow> string \<Rightarrow> string" where
  \<comment> \<open>the replacement text of \<open>String.prototype.replace\<close> for a match at position 0 of a
      pattern without groups: \<open>$$\<close>, \<open>$&\<close>, \<open>$`\<close> and \<open>$'\<close> are patterns, any other \<open>$\<close>
      is literal\<close>
  "getSubstitution matched after [] = []"
| "getSubstitution matched after [c] = [c]"
| "getSubstitution matched after (c # d # r) =
     (if c = CHR ''$'' then
        (if d = CHR ''$'' then CHR ''$'' # getSubstitution matched after r
         else if d = CHR ''&'' then matched @ getSubstitution matched after r
         else if d = CHR 0x60 then getSubstitution matched after r
         else if d = CHR 0x27 then after @ getSubstitution matched after r
         else c # getSubstitution matched after (d # r))
      else c # getSubstitution matched after (d # r))"

definition replaceLeadingTilde :: "string \<Rightarrow> string \<Rightarrow> string" where
  \<comment> \<open>\<open>inputPath.replace(/^~/, homedir())\<close>\<close>
  "replaceLeadingTilde inputPath home =
     (case inputPath of
        [] \<Rightarrow> []
      | c # cs \<Rightarrow> if c = CHR ''~'' then getSubstitution ''~'' cs home @ cs else inputPath)"

text \<open>
  What the filesystem adapter reads from outside. \<open>FS_ROOT\<close> and \<open>MAX_FILE_SIZE\<close> are
  the module's constants (the latter a byte count), \<open>homedir\<close> and \<open>cwd\<close> the results of
  \<open>os.homedir()\<close> and \<open>process.cwd()\<close>. \<open>lookup\<close> is the file system: for a path, the
  error that \<open>access\<close> and \<open>stat\<close> throw, or the node there with the size that \<open>stat\<close>
  reports and what reading it gives (its bytes, or the error thrown).
\<close>

record fsNode =
  nodeSize :: nat
  nodeRead :: "string + 8 word list"

record fsEnv =
  FS_ROOT :: string
  MAX_FILE_SIZE :: nat
  homedir :: string
  cwd :: string
  lookup :: "string \<Rightarrow> string + fsNode"

definition resolvePath :: "fsEnv \<Rightarrow> string \<Rightarrow> string + string" where
  "resolvePath env inputPath =
     (let expanded = replaceLeadingTilde inputPath (homedir env);
          resolved = pathResolve (cwd env) [FS_ROOT env, expanded];
          normalizedRoot = pathResolve (cwd env) [FS_ROOT env];
          normalizedPath = pathResolve (cwd env) [resolved]
      in if \<not> startsWith normalizedPath normalizedRoot then
           Inl ''Access denied: path is outside root directory''
         else Inr normalizedPath)"

definition resolvePath_test :: "string \<Rightarrow> string \<Rightarrow> string \<Rightarrow> string \<Rightarrow> string + string" where
  \<comment> \<open>the copy of \<open>resolvePath\<close> in the filesystem tests ("same logic as in
      filesystem-mcp"), which takes the root as an argument\<close>
  "resolvePath_test home workdir inputPath fsRoot =
     (let expanded = replaceLeadingTilde inputPath home;
          resolved = pathResolve workdir [fsRoot, expanded];
          normalizedRoot = pathResolve workdir [fsRoot];
          normalizedPath = pathResolve workdir [resolved]
      in if \<not> startsWith normalizedPath (normalizedRoot @ ''/'') \<and> normalizedPath \<noteq> normalizedRoot
         then Inl ''Access denied: path is outside root directory''
         else Inr normalizedPath)"

section \<open>Bounded content reader (filesystem-mcp)\<close>

text \<open>
  File contents are bytes; the text handed back to the client is a JavaScript string,
  here the list of its UTF-16 code units, since decoded text is not confined to code
  units below 256. \<open>utf16\<close> takes a string of the model to that form.
  \<open>bufferToString\<close> is \<open>buffer.toString('utf-8')\<close>: UTF-8 decoding in which every
  maximal ill-formed part becomes one U+FFFD and nothing is stripped.
\<close>

definition utf16 :: "string \<Rightarrow> nat list" where
  "utf16 s = map of_char s"

definition inRange :: "nat \<Rightarrow> nat \<Rightarrow> 8 word \<Rightarrow> bool" where
  "inRange lo hi b = (lo \<le> unat b \<and> unat b \<le> hi)"

definition secondLow :: "nat \<Rightarrow> nat" where
  \<comment> \<open>the least second byte after lead byte \<open>n\<close>: no overlong forms\<close>
  "secondLow n = (if n = 0xE0 then 0xA0 else if n = 0xF0 then 0x90 else 0x80)"

definition secondHigh :: "nat \<Rightarrow> nat" where
  \<comment> \<open>the greatest second byte after lead byte \<open>n\<close>: no surrogates, nothing above U+10FFFF\<close>
  "secondHigh n = (if n = 0xED then 0x9F else if n = 0xF4 then 0x8F else 0xBF)"

definition codePoint2 :: "nat \<Rightarrow> 8 word \<Rightarrow> nat" where
  "codePoint2 n c = n mod 32 * 64 + unat c mod 64"

definition codePoint3 :: "nat \<Rightarrow> 8 word \<Rightarrow> 8 word \<Rightarrow> nat" where
  "codePoint3 n c d = n mod 16 * 4096 + unat c mod 64 * 64 + unat d mod 64"

definition codePoint4 :: "nat \<Rightarrow> 8 word \<Rightarrow> 8 word \<Rightarrow> 8 word \<Rightarrow> nat" where
  "codePoint4 n c d e = n mod 8 * 262144 + unat c mod 64 * 4096 + unat d mod 64 * 64 + unat e mod 64"

definition decodeStep :: "8 word \<Rightarrow> 8 word list \<Rightarrow> nat \<times> nat" where
  \<comment> \<open>the code point that starts with byte \<open>b\<close>, followed by \<open>bs\<close>, and the number of
      bytes it takes; an ill-formed part gives U+FFFD and ends before the offending byte\<close>
  "decodeStep b bs =
     (let n = unat b in
      if n < 0x80 then (n, 1)
      else if 0xC2 \<le> n \<and> n \<le> 0xDF then
        (case bs of
           [] \<Rightarrow> (0xFFFD, 1)
         | c # cs \<Rightarrow> if inRange 0x80 0xBF c then (codePoint2 n c, 2) else (0xFFFD, 1))
      else if 0xE0 \<le> n \<and> n \<le> 0xEF then
        (case bs of
           [] \<Rightarrow> (0xFFFD, 1)
         | c # cs \<Rightarrow>
             if inRange (secondLow n) (secondHigh n) c then
               (case cs of
                  [] \<Rightarrow> (0xFFFD, 2)
                | d # ds \<Rightarrow> if inRange 0x80 0xBF d then (codePoint3 n c d, 3) else (0xFFFD, 2))
             else (0xFFFD, 1))
      else if 0xF0 \<le> n \<and> n \<le> 0xF4 then
        (case bs of
           [] \<Rightarrow> (0xFFFD, 1)
         | c # cs \<Rightarrow>
             if inRange (secondLow n) (secondHigh n) c then
               (case cs of
                  [] \<Rightarrow> (0xFFFD, 2)
                | d # ds \<Rightarrow>
                    if inRange 0x80 0xBF d then
                      (case ds of
                         [] \<Rightarrow> (0xFFFD, 3)
                       | e # es \<Rightarrow>
                           if inRange 0x80 0xBF e then (codePoint4 n c d e, 4) else (0xFFFD, 3))
                    else (0xFFFD, 2))
             else (0xFFFD, 1))
      else (0xFFFD, 1))"

fun utf8Decode :: "8 word list \<Rightarrow> nat list" where
  "utf8Decode [] = []"
| "utf8Decode (b # bs) =
     (case decodeStep b bs of (cp, used) \<Rightarrow> cp # utf8Decode (drop (used - 1) bs))"

definition toUtf16 :: "nat \<Rightarrow> nat list" where
  "toUtf16 cp =
     (if cp < 0x10000 then [cp]
      else [0xD800 + (cp - 0x10000) div 0x400, 0xDC00 + (cp - 0x10000) mod 0x400])"

definition bufferToString :: "8 word list \<Rightarrow> nat list" where
  "bufferToString buffer = concat (map toUtf16 (utf8Decode buffer))"

fun hasNullByte :: "8 word list \<Rightarrow> bool" where
  \<comment> \<open>the loop of \<open>isBinaryFile\<close>\<close>
  "hasNullByte [] = False"
| "hasNullByte (b # bs) = (if b = 0 then True else hasNullByte bs)"

definition isBinaryFile :: "8 word list \<Rightarrow> bool" where
  "isBinaryFile buffer = (let sample = take 8192 buffer in hasNullByte sample)"

record fileContent =
  content :: "nat list"
  truncated :: bool
  binary :: bool

definition readFileContent :: "fsEnv \<Rightarrow> string \<Rightarrow> string + fileContent" where
  \<comment> \<open>over the cap, a zero-filled buffer of \<open>MAX_FILE_SIZE\<close> bytes receives the first
      \<open>MAX_FILE_SIZE\<close> bytes of the file\<close>
  "readFileContent env filePath =
     (case lookup env filePath of
        Inl e \<Rightarrow> Inl e
      | Inr stats \<Rightarrow>
          if nodeSize stats > MAX_FILE_SIZE env then
            (case nodeRead stats of
               Inl e \<Rightarrow> Inl e
             | Inr bytes \<Rightarrow>
                 (let fd = take (MAX_FILE_SIZE env) (bytes @ replicate (MAX_FILE_SIZE env) 0)
                  in if isBinaryFile fd then
                       Inr \<lparr>content = utf16 ''[Binary file]'', truncated = False, binary = True\<rparr>
                     else Inr \<lparr>content = bufferToString fd, truncated = True, binary = False\<rparr>))
          else
            (case nodeRead stats of
               Inl e \<Rightarrow> Inl e
             | Inr buffer \<Rightarrow>
                 if isBinaryFile buffer then
                   Inr \<lparr>content = utf16 ''[Binary file]'', truncated = False, binary = True\<rparr>
                 else Inr \<lparr>content = bufferToString buffer, truncated = False, binary = False\<rparr>))"

definition access :: "fsEnv \<Rightarrow> string \<Rightarrow> string + unit" where
  "access env filePath = (case lookup env filePath of Inl e \<Rightarrow> Inl e | Inr _ \<Rightarrow> Inr ())"

definition newline :: string where
  "newline = [CHR 0x0A]"

definition fence :: string where
  "fence = [CHR 0x60, CHR 0x60, CHR 0x60]"

definition readFilesEntry :: "fsEnv \<Rightarrow> string \<Rightarrow> nat list" where
  \<comment> \<open>the body of the loop of \<open>read_files\<close>, with its own \<open>try / catch\<close>: what one path
      pushes onto \<open>outputs\<close>\<close>
  "readFilesEntry env path =
     (let failed = (\<lambda>message. utf16 (''## '' @ path @ newline @ ''Error: '' @ message))
      in case resolvePath env path of
           Inl e \<Rightarrow> failed e
         | Inr filePath \<Rightarrow>
             (case access env filePath of
                Inl e \<Rightarrow> failed e
              | Inr _ \<Rightarrow>
                  (case readFileContent env filePath of
                     Inl e \<Rightarrow> failed e
                   | Inr r \<Rightarrow>
                       if binary r then
                         utf16 (''## '' @ path @ newline @ ''[Binary file - cannot display]'')
                       else
                         (let output = utf16 (''## '' @ path @ newline @ fence @ newline)
                                         @ content r @ utf16 (newline @ fence)
                          in if truncated r then output @ utf16 (newline @ ''*Truncated*'')
                             else output))))"

fun readFilesLoop :: "fsEnv \<Rightarrow> string list \<Rightarrow> nat list list \<Rightarrow> nat list list" where
  \<comment> \<open>\<open>for (const path of ...)\<close>, appending to \<open>outputs\<close>\<close>
  "readFilesLoop env [] outputs = outputs"
| "readFilesLoop env (path # rest) outputs =
     readFilesLoop env rest (outputs @ [readFilesEntry env path])"

definition read_files :: "fsEnv \<Rightarrow> string list \<Rightarrow> nat list" where
  \<comment> \<open>\<open>case 'read_files'\<close>: the text of the response\<close>
  "read_files env paths =
     join (utf16 (newline @ newline @ ''---'' @ newline @ newline))
       (readFilesLoop env (sliceTo paths 10) [])"

section \<open>Tool-call handlers of sqlite-mcp and filesystem-mcp\<close>

text \<open>
  A tool call is the tool's name with arguments of the declared shape. The tools whose
  bodies are embedded above are calls of their own; every other tool, and every
  unknown name, is \<open>OtherSqliteTool\<close> or \<open>OtherFsTool\<close>, whose body is a parameter that
  returns the text of the response or throws.
\<close>

datatype 'args sqliteCall =
    Query string
  | OtherSqliteTool string 'args

definition sqliteToolBody :: "'row sqliteEnv \<Rightarrow> ('row QueryResult \<Rightarrow> string)
    \<Rightarrow> (string \<Rightarrow> 'args \<Rightarrow> string + string) \<Rightarrow> 'args sqliteCall \<Rightarrow> string + string" where
  \<comment> \<open>the \<open>switch\<close> inside the handler's \<open>try\<close>; \<open>formatTable\<close> renders a non-empty result\<close>
  "sqliteToolBody env formatTable otherTool call =
     (case call of
        Query sql \<Rightarrow>
          (case executeQuery env sql of
             Inl e \<Rightarrow> Inl e
           | Inr result \<Rightarrow>
               if rows result = [] then Inr ''Query returned no results''
               else Inr (formatTable result))
      | OtherSqliteTool name args \<Rightarrow> otherTool name args)"

definition sqliteHandler :: "'row sqliteEnv \<Rightarrow> ('row QueryResult \<Rightarrow> string)
    \<Rightarrow> (string \<Rightarrow> 'args \<Rightarrow> string + string) \<Rightarrow> 'args sqliteCall \<Rightarrow> string + string" where
  \<comment> \<open>\<open>try { switch ... } catch (error) { return ... `Error: ${message}` }\<close>\<close>
  "sqliteHandler env formatTable otherTool call =
     (case sqliteToolBody env formatTable otherTool call of
        Inl e \<Rightarrow> Inr (''Error: '' @ e)
      | Inr out \<Rightarrow> Inr out)"

definition toFixed1 :: "nat \<Rightarrow> nat \<Rightarrow> string" where
  \<comment> \<open>\<open>(num / den).toFixed(1)\<close> for a power of two \<open>den\<close>: the quotient is exact, and the
      nearest tenth is taken, the larger one at a tie\<close>
  "toFixed1 num den =
     (let tenths = (20 * num + den) div (2 * den)
      in showNat (tenths div 10) @ ''.'' @ showNat (tenths mod 10))"

definition formatSize :: "nat \<Rightarrow> string" where
  "formatSize bytes =
     (if bytes < 1024 then showNat bytes @ '' B''
      else if bytes < 1024 * 1024 then toFixed1 bytes 1024 @ '' KB''
      else if bytes < 1024 * 1024 * 1024 then toFixed1 bytes (1024 * 1024) @ '' MB''
      else toFixed1 bytes (1024 * 1024 * 1024) @ '' GB'')"

datatype 'args fsCall =
    ReadFile string
  | ReadFiles "string list"
  | OtherFsTool string 'args

definition read_file :: "fsEnv \<Rightarrow> string \<Rightarrow> string + nat list" where
  \<comment> \<open>\<open>case 'read_file'\<close>\<close>
  "read_file env p =
     (case resolvePath env p of
        Inl e \<Rightarrow> Inl e
      | Inr filePath \<Rightarrow>
          (case access env filePath of
             Inl e \<Rightarrow> Inl e
           | Inr _ \<Rightarrow>
               (case readFileContent env filePath of
                  Inl e \<Rightarrow> Inl e
                | Inr r \<Rightarrow>
                    if binary r then Inr (utf16 (p @ '': [Binary file - cannot display]''))
                    else
                      (let output = utf16 (''**'' @ p @ ''**'' @ newline @ newline @ fence @ newline)
                                      @ content r @ utf16 (newline @ fence)
                       in if truncated r then
                            Inr (output @ utf16 (newline @ newline @ ''*File truncated at ''
                                   @ formatSize (MAX_FILE_SIZE env) @ ''*''))
                          else Inr output))))"

definition fsToolBody :: "fsEnv \<Rightarrow> (string \<Rightarrow> 'args \<Rightarrow> string + nat list) \<Rightarrow> 'args fsCall
    \<Rightarrow> string + nat list" where
  "fsToolBody env otherTool call =
     (case call of
        ReadFile p \<Rightarrow> read_file env p
      | ReadFiles paths \<Rightarrow> Inr (read_files env paths)
      | OtherFsTool name args \<Rightarrow> otherTool name args)"

definition fsHandler :: "fsEnv \<Rightarrow> (string \<Rightarrow> 'args \<Rightarrow> string + nat list) \<Rightarrow> 'args fsCall
    \<Rightarrow> string + nat list" where
  \<comment> \<open>\<open>try { switch ... } catch (error) { return ... `Error: ${message}` }\<close>\<close>
  "fsHandler env otherTool call =
     (case fsToolBody env otherTool call of
        Inl e \<Rightarrow> Inr (utf16 (''Error: '' @ e))
      | Inr out \<Rightarrow> Inr out)"

section \<open>Tool-call handler of obsidian-mcp\<close>

text \<open>
  The vault on disk, as \<open>getAllMarkdownFiles\<close> sees it: at a path there is nothing
  (\<open>existsSync\<close> is false), or a directory that \<open>readdirSync\<close> lists, or one for which
  \<open>readdirSync\<close> throws. A listed entry is a file, a directory or neither.
\<close>

datatype dirTree =
    Missing
  | Unreadable string
  | Listing "(string \<times> dirEntry) list"
and dirEntry =
    FileEntry
  | DirEntry dirTree
  | OtherEntry

definition pathNormalize :: "string \<Rightarrow> string" where
  \<comment> \<open>\<open>path.normalize\<close>\<close>
  "pathNormalize p =
     (if p = [] then ''.''
      else
        (let isAbsolute = (hd p = CHR ''/'');
             trailingSeparator = (last p = CHR ''/'');
             normalized = normalizeString p (\<not> isAbsolute)
         in if normalized = [] then
              (if isAbsolute then ''/'' else if trailingSeparator then ''./'' else ''.'')
            else
              (let withSep = (if trailingSeparator then normalized @ ''/'' else normalized)
               in if isAbsolute then CHR ''/'' # withSep else withSep)))"

definition pathJoin :: "string list \<Rightarrow> string" where
  \<comment> \<open>\<open>path.join\<close>: the non-empty arguments joined by \<open>/\<close>, then normalised\<close>
  "pathJoin args =
     (case filter (\<lambda>a. a \<noteq> []) args of
        [] \<Rightarrow> ''.''
      | parts \<Rightarrow> pathNormalize (join ''/'' parts))"

fun dropExtension :: "string \<Rightarrow> string" where
  \<comment> \<open>the name without what follows its last dot, the dot included; the whole name when
      there is no dot\<close>
  "dropExtension [] = []"
| "dropExtension (c # cs) =
     (if CHR ''.'' \<in> set cs then c # dropExtension cs
      else if c = CHR ''.'' then [] else c # cs)"

definition extname :: "string \<Rightarrow> string" where
  \<comment> \<open>\<open>path.extname\<close> of a file name without separators: from the last dot on, unless
      that dot begins the name; nothing for \<open>..\<close>\<close>
  "extname name =
     (if name = ''..'' \<or> CHR ''.'' \<notin> set name then []
      else if dropExtension name = [] then []
      else drop (length (dropExtension name)) name)"

definition basenameWithout :: "string \<Rightarrow> string \<Rightarrow> string" where
  \<comment> \<open>\<open>path.basename(p, ext)\<close> for a path without trailing separator\<close>
  "basenameWithout p ext =
     (if p = ext then []
      else
        (let base = last (splitOn CHR ''/'' p)
         in if length ext < length base \<and> drop (length base - length ext) base = ext
            then take (length base - length ext) base
            else base))"

record 'fm NoteMetadata =
  path :: string
  title :: string
  tags :: "string list"
  links :: "string list"
  backlinks :: "string list"
  created :: string
  modified :: string
  frontmatter :: 'fm

record 'fm obsidianState =
  noteCache :: "(string \<times> 'fm NoteMetadata) list"
  lastCacheUpdate :: int

text \<open>
  What the adapter reads from outside: the vault path and the tree found there, the
  clock, \<open>parseNote\<close> (which reads and parses one file, or throws), and \<open>respond\<close>: what a
  tool computes from its arguments and the refreshed cache and how the handler formats
  it. Each file operation in that part of the source sits in a \<open>try / catch\<close> of its own
  or behind \<open>existsSync\<close>. The model covers calls whose arguments have the declared
  shape and notes whose title is a string; the source throws in further cases (a call
  without arguments, a front-matter title that is not a string), which are not in the
  model. So the model says when a failed directory listing leaves the handler, and
  does not say that nothing else does.
\<close>

record ('fm, 'args) obsidianEnv =
  VAULT_PATH :: string
  vault :: dirTree
  dateNow :: int
  parseNote :: "string \<Rightarrow> string + 'fm NoteMetadata"
  respond :: "string \<Rightarrow> 'args \<Rightarrow> (string \<times> 'fm NoteMetadata) list \<Rightarrow> string"

definition CACHE_TTL :: int where
  "CACHE_TTL = 30000"

fun getAllMarkdownFiles :: "dirTree \<Rightarrow> string \<Rightarrow> string list \<Rightarrow> string + string list"
  and scanEntries :: "(string \<times> dirEntry) list \<Rightarrow> string \<Rightarrow> string list \<Rightarrow> string + string list"
where
  "getAllMarkdownFiles Missing dir files = Inr files"
| "getAllMarkdownFiles (Unreadable e) dir files = Inl e"
| "getAllMarkdownFiles (Listing entries) dir files = scanEntries entries dir files"
| "scanEntries [] dir files = Inr files"
| "scanEntries ((name, FileEntry) # others) dir files =
     (if startsWith name ''.'' \<or> name = ''node_modules'' then scanEntries others dir files
      else if extname name = ''.md'' then scanEntries others dir (files @ [pathJoin [dir, name]])
      else scanEntries others dir files)"
| "scanEntries ((name, DirEntry sub) # others) dir files =
     (if startsWith name ''.'' \<or> name = ''node_modules'' then scanEntries others dir files
      else
        (case getAllMarkdownFiles sub (pathJoin [dir, name]) files of
           Inl e \<Rightarrow> Inl e
         | Inr files' \<Rightarrow> scanEntries others dir files'))"
| "scanEntries ((name, OtherEntry) # others) dir files = scanEntries others dir files"

fun mapSet :: "('k \<times> 'v) list \<Rightarrow> 'k \<Rightarrow> 'v \<Rightarrow> ('k \<times> 'v) list" where
  \<comment> \<open>\<open>Map.prototype.set\<close>: a present key keeps its place\<close>
  "mapSet [] k v = [(k, v)]"
| "mapSet ((k', v') # kvs) k v = (if k' = k then (k, v) # kvs else (k', v') # mapSet kvs k v)"

fun parsePass :: "('fm, 'args) obsidianEnv \<Rightarrow> string list
    \<Rightarrow> (string \<times> 'fm NoteMetadata) list \<Rightarrow> (string \<times> 'fm NoteMetadata) list" where
  \<comment> \<open>first pass: a file that does not parse is skipped\<close>
  "parsePass env [] cache = cache"
| "parsePass env (file # files) cache =
     (case parseNote env file of
        Inl e \<Rightarrow> parsePass env files cache
      | Inr metadata \<Rightarrow> parsePass env files (mapSet cache (path metadata) metadata))"

definition addBacklink :: "string \<Rightarrow> string \<Rightarrow> (string \<times> 'fm NoteMetadata)
    \<Rightarrow> (string \<times> 'fm NoteMetadata)" where
  "addBacklink source link target =
     (case target of
        (targetPath, targetNote) \<Rightarrow>
          if toLowerCase (title targetNote) = toLowerCase link
             \<or> toLowerCase (basenameWithout targetPath ''.md'') = toLowerCase link
          then (targetPath, targetNote\<lparr>backlinks := backlinks targetNote @ [source]\<rparr>)
          else (targetPath, targetNote))"

definition backlinkPass :: "(string \<times> 'fm NoteMetadata) list \<Rightarrow> (string \<times> 'fm NoteMetadata) list" where
  \<comment> \<open>second pass: for every note and every link of it, in order, every note the link
      names receives the linking note's path\<close>
  "backlinkPass cache =
     foldl (\<lambda>c (source, link). map (addBacklink source link) c) cache
       (concat (map (\<lambda>(p, note). map (\<lambda>link. (path note, link)) (links note)) cache))"

definition refreshCache :: "('fm, 'args) obsidianEnv \<Rightarrow> 'fm obsidianState
    \<Rightarrow> string + 'fm obsidianState" where
  "refreshCache env st =
     (if dateNow env - lastCacheUpdate st < CACHE_TTL \<and> noteCache st \<noteq> [] then Inr st
      else
        (case getAllMarkdownFiles (vault env) (VAULT_PATH env) [] of
           Inl e \<Rightarrow> Inl e
         | Inr files \<Rightarrow>
             Inr \<lparr>noteCache = backlinkPass (parsePass env files []),
                  lastCacheUpdate = dateNow env\<rparr>))"

definition obsidianTools :: "string list" where
  \<comment> \<open>the cases of the handler's \<open>switch\<close>; each calls a function that begins with
      \<open>refreshCache()\<close>\<close>
  "obsidianTools =
     [''search_notes'', ''read_note'', ''list_by_tag'', ''recent_notes'', ''daily_notes'',
      ''get_backlinks'']"

definition obsidianHandler :: "('fm, 'args) obsidianEnv \<Rightarrow> 'fm obsidianState \<Rightarrow> string \<Rightarrow> 'args
    \<Rightarrow> string + (string \<times> 'fm obsidianState)" where
  \<comment> \<open>the \<open>CallToolRequestSchema\<close> handler: a \<open>switch\<close> with no \<open>try\<close> around it, so what a
      tool throws is what the handler throws. The state is the cache; a throw in
      \<open>refreshCache\<close> comes after \<open>noteCache.clear()\<close>.\<close>
  "obsidianHandler env st name args =
     (if name \<in> set obsidianTools then
        (case refreshCache env st of
           Inl e \<Rightarrow> Inl e
         | Inr st' \<Rightarrow> Inr (respond env name args (noteCache st'), st'))
      else Inr (''Unknown tool: '' @ name, st))"

section \<open>Specification predicates\<close>

text \<open>
  The grammars and notions the specification speaks of, written out independently of
  the regular expressions of the program.
\<close>

definition strictFirst :: "char \<Rightarrow> bool" where
  "strictFirst c = (isLetter c \<or> c = CHR ''_'')"

definition strictRest :: "char \<Rightarrow> bool" where
  "strictRest c = (isLetter c \<or> isDigit c \<or> c = CHR ''_'')"

definition looseChar :: "char \<Rightarrow> bool" where
  "looseChar c = (isLetter c \<or> isDigit c \<or> c = CHR ''_'' \<or> c = CHR '' '' \<or> c = CHR ''-'')"

definition matchesStrict :: "string \<Rightarrow> bool" where
  "matchesStrict s = (case s of [] \<Rightarrow> False | c # cs \<Rightarrow> strictFirst c \<and> list_all strictRest cs)"

definition matchesLoose :: "string \<Rightarrow> bool" where
  "matchesLoose s = (s \<noteq> [] \<and> list_all looseChar s)"

definition disallowedChars :: string where
  "disallowedChars = [CHR '';'', CHR 0x27, CHR 0x22, CHR ''('', CHR '')'', CHR ''/'', CHR 0x5C]"

definition controlChars :: string where
  "controlChars = map char_of ([0..<32] @ [127..<160] :: nat list)"

definition occursAsWholeWord :: "string \<Rightarrow> string \<Rightarrow> bool" where
  "occursAsWholeWord keyword q =
     (\<exists>pre mid post. q = pre @ mid @ post \<and> toUpperCase mid = toUpperCase keyword
        \<and> (pre = [] \<or> \<not> isWordChar (last pre)) \<and> (post = [] \<or> \<not> isWordChar (hd post)))"

definition isKeyword :: "string \<Rightarrow> bool" where
  "isKeyword k = (k \<noteq> [] \<and> list_all isWordChar k)"

definition beginsWithKeyword :: "string \<Rightarrow> string \<Rightarrow> bool" where
  "beginsWithKeyword kw q = prefix (toUpperCase kw) (toUpperCase (trim q))"

definition sqliteAllowedLeading :: "string list" where
  "sqliteAllowedLeading = [''SELECT'', ''WITH'', ''EXPLAIN'']"

definition pgAllowedLeading :: "string list" where
  "pgAllowedLeading = [''SELECT'', ''WITH'']"

definition beginsWithAllowed :: "string list \<Rightarrow> string \<Rightarrow> bool" where
  "beginsWithAllowed allowed q = list_ex (\<lambda>kw. beginsWithKeyword kw q) allowed"



section \<open>Example configurations\<close>

text \<open>
  Concrete configurations and file systems, on which the theorems below are evaluated.
\<close>

definition exampleSqliteEnv :: "int sqliteEnv" where
  \<comment> \<open>the default configuration (\<open>SQLITE_MAX_ROWS\<close> unset: 100) over an engine with no rows\<close>
  "exampleSqliteEnv =
     \<lparr>READ_ONLY = True, MAX_ROWS = 100, getDatabase = Inr (),
      prepareAll = (\<lambda>sql. Inr []), objectKeys = (\<lambda>r. [])\<rparr>"

definition examplePgEnv :: "string pgEnv" where
  \<comment> \<open>a client that accepts every statement and answers with the statement's text\<close>
  "examplePgEnv = \<lparr>poolConnect = Inr (), clientQuery = (\<lambda>s. Inr s), renderResult = (\<lambda>r. r)\<rparr>"

definition tmpRootEnv :: fsEnv where
  \<comment> \<open>root \<open>/tmp/root\<close> and a cap of 16 bytes, on an empty file system\<close>
  "tmpRootEnv =
     \<lparr>FS_ROOT = ''/tmp/root'', MAX_FILE_SIZE = 16, homedir = ''/home/user'',
      cwd = ''/srv/app'', lookup = (\<lambda>p. Inl ''ENOENT: no such file or directory'')\<rparr>"

definition sampleFsEnv :: fsEnv where
  \<comment> \<open>root \<open>/tmp/root\<close> with a cap of 8 bytes and three files: ten bytes with a zero
      byte among the first eight, twelve bytes of text, two bytes of text\<close>
  "sampleFsEnv =
     \<lparr>FS_ROOT = ''/tmp/root'', MAX_FILE_SIZE = 8, homedir = ''/home/user'', cwd = ''/srv/app'',
      lookup = (\<lambda>p.
        if p = ''/tmp/root/blob.bin'' then
          Inr \<lparr>nodeSize = 10,
               nodeRead = Inr [0x50, 0x00, 0x4E, 0x47, 0x0D, 0x0A, 0x1A, 0x0A, 0x00, 0x00]\<rparr>
        else if p = ''/tmp/root/notes.txt'' then
          Inr \<lparr>nodeSize = 12,
               nodeRead = Inr [0x68, 0x65, 0x6C, 0x6C, 0x6F, 0x20, 0x77, 0x6F, 0x72, 0x6C, 0x64, 0x21]\<rparr>
        else if p = ''/tmp/root/a.txt'' then
          Inr \<lparr>nodeSize = 2, nodeRead = Inr [0x68, 0x69]\<rparr>
        else Inl ''ENOENT: no such file or directory'')\<rparr>"

definition lockedVaultEnv :: "(unit, string) obsidianEnv" where
  \<comment> \<open>a vault with one note and one sub-directory that the process may not list\<close>
  "lockedVaultEnv =
     \<lparr>VAULT_PATH = ''/vault'',
      vault = Listing
        [(''todo.md'', FileEntry),
         (''private'', DirEntry (Unreadable ''EACCES: permission denied, scandir /vault/private''))],
      dateNow = 1700000000000,
      parseNote = (\<lambda>file. Inl ''ENOENT''),
      respond = (\<lambda>name args cache. ''No notes found'')\<rparr>"

definition initialObsidianState :: "unit obsidianState" where
  \<comment> \<open>the module's initial values\<close>
  "initialObsidianState = \<lparr>noteCache = [], lastCacheUpdate = 0\<rparr>"

section \<open>Verification\<close>

subsection \<open>Regular expressions against the grammars\<close>

lemma re_search_Bol_Some: "re_search (Bol # r) (Some p) s = False"
  by (induction s arbitrary: p) simp_all

lemma re_test_Bol: "re_test (Bol # r) s = re_match r None s"
  by (cases s) (simp_all add: re_test_def re_search_Bol_Some)

lemma re_match_Star_Eol: "re_match [Star (Cls P), Eol] prev s = list_all P s"
  by (induction s arbitrary: prev) auto

lemma re_test_strict: "re_test strictIdentRe s = matchesStrict s"
  unfolding strictIdentRe_def re_test_Bol
  by (cases s) (simp_all add: re_match_Star_Eol matchesStrict_def strictFirst_def strictRest_def [abs_def])

lemma re_test_loose: "re_test looseIdentRe s = matchesLoose s"
  unfolding looseIdentRe_def re_test_Bol
  by (cases s) (simp_all add: re_match_Star_Eol matchesLoose_def looseChar_def [abs_def])

lemma validateIdentifier_eq:
  "validateIdentifier s kind =
     (if matchesStrict s \<or> matchesLoose s then Inr s
      else Inl (''Invalid '' @ kindName kind @ '' name: contains disallowed characters''))"
  by (simp add: validateIdentifier_def re_test_strict re_test_loose)

lemma bad_not_loose: "list_all (\<lambda>c. \<not> looseChar c) (disallowedChars @ controlChars)"
  by code_simp

lemma strict_imp_loose: "matchesStrict s \<Longrightarrow> matchesLoose s"
  by (cases s) (auto simp: matchesStrict_def matchesLoose_def strictFirst_def strictRest_def looseChar_def list_all_iff)

lemma bad_rejected:
  assumes "c \<in> set s" "c \<in> set disallowedChars \<union> set controlChars"
  shows "\<not> matchesStrict s \<and> \<not> matchesLoose s"
proof -
  from assms(2) bad_not_loose have "\<not> looseChar c" by (auto simp: list_all_iff)
  with assms(1) have "\<not> matchesLoose s" by (auto simp: matchesLoose_def list_all_iff)
  with strict_imp_loose show ?thesis by blast
qed

lemma toUpperChar_upper_iff: "toUpperChar c \<in> set upperLetters \<longleftrightarrow> isLetter c"
  unfolding toUpperChar_def isLetter_def lowerLetters_def upperLetters_def
  by (simp split: if_splits) 

lemma toUpperChar_nonletter: "\<not> isLetter c \<Longrightarrow> toUpperChar c = c"
  unfolding toUpperChar_def isLetter_def lowerLetters_def upperLetters_def
  by simp

lemma isWordChar_ci:
  assumes "toUpperChar c = toUpperChar k" "isWordChar k"
  shows "isWordChar c"
proof (cases "isLetter k")
  case True
  then have "toUpperChar c \<in> set upperLetters" using assms(1) toUpperChar_upper_iff by simp
  then show ?thesis by (simp add: toUpperChar_upper_iff isWordChar_def)
next
  case False
  then have k: "toUpperChar k = k" by (rule toUpperChar_nonletter)
  have "\<not> isLetter c"
  proof
    assume "isLetter c"
    then have "toUpperChar c \<in> set upperLetters" by (simp add: toUpperChar_upper_iff)
    with assms(1) k have "k \<in> set upperLetters" by simp
    with False show False by (simp add: isLetter_def)
  qed
  then have "toUpperChar c = c" by (rule toUpperChar_nonletter)
  with assms k show ?thesis by simp
qed

lemma wordAfter_alt: "wordAfter s = (s \<noteq> [] \<and> isWordChar (hd s))"
  by (cases s) simp_all

lemma re_match_literal:
  "re_match (map (\<lambda>k. One (ChrI k)) kw @ r) prev s =
     (\<exists>mid post. s = mid @ post \<and> map toUpperChar mid = map toUpperChar kw
        \<and> re_match r (if mid = [] then prev else Some (last mid)) post)"
proof (induction kw arbitrary: prev s)
  case Nil
  then show ?case by simp
next
  case (Cons k kw)
  show ?case
  proof (cases s)
    case Nil
    then show ?thesis by simp
  next
    case (Cons c cs)
    have "re_match (map (\<lambda>k. One (ChrI k)) (k # kw) @ r) prev (c # cs) =
            (toUpperChar c = toUpperChar k \<and>
             (\<exists>mid post. cs = mid @ post \<and> map toUpperChar mid = map toUpperChar kw
                \<and> re_match r (if mid = [] then Some c else Some (last mid)) post))"
      by (simp add: Cons.IH)
    also have "\<dots> = (\<exists>mid post. c # cs = mid @ post
                 \<and> map toUpperChar mid = map toUpperChar (k # kw)
                 \<and> re_match r (if mid = [] then prev else Some (last mid)) post)"
      (is "?L = ?R")
    proof
      assume ?L
      then obtain mid post where m: "toUpperChar c = toUpperChar k" "cs = mid @ post"
         "map toUpperChar mid = map toUpperChar kw"
         "re_match r (if mid = [] then Some c else Some (last mid)) post" by blast
      have "c # cs = (c # mid) @ post" using m(2) by simp
      moreover have "map toUpperChar (c # mid) = map toUpperChar (k # kw)" using m(1,3) by simp
      moreover have "re_match r (if c # mid = [] then prev else Some (last (c # mid))) post"
        using m(4) by (cases mid) simp_all
      ultimately show ?R by blast
    next
      assume ?R
      then obtain mid post where m: "c # cs = mid @ post"
         "map toUpperChar mid = map toUpperChar (k # kw)"
         "re_match r (if mid = [] then prev else Some (last mid)) post" by blast
      from m(2) obtain d mid' where mid: "mid = d # mid'" by (cases mid) auto
      with m(1) have dc: "d = c" "cs = mid' @ post" by simp_all
      from m(2) mid dc have "toUpperChar c = toUpperChar k"
        "map toUpperChar mid' = map toUpperChar kw" by simp_all
      moreover have "re_match r (if mid' = [] then Some c else Some (last mid')) post"
        using m(3) mid dc by (cases mid') simp_all
      ultimately show ?L using dc by blast
    qed
    finally show ?thesis using Cons by simp
  qed
qed

lemma ci_wordchars:
  "map toUpperChar mid = map toUpperChar kw \<Longrightarrow> list_all isWordChar kw \<Longrightarrow> list_all isWordChar mid"
proof (induction mid arbitrary: kw)
  case Nil
  then show ?case by simp
next
  case (Cons c mid)
  then obtain k kw' where "kw = k # kw'" by (cases kw) auto
  with Cons show ?case by (auto intro: isWordChar_ci)
qed

lemma re_match_keyword:
  assumes "isKeyword kw"
  shows "re_match (keywordRe kw) prev s =
     (\<exists>mid post. s = mid @ post \<and> toUpperCase mid = toUpperCase kw
        \<and> \<not> wordBefore prev \<and> (post = [] \<or> \<not> isWordChar (hd post)))"
    (is "?L = ?R")
proof -
  have L: "?L = (wordBefore prev \<noteq> wordAfter s \<and>
      (\<exists>mid post. s = mid @ post \<and> map toUpperChar mid = map toUpperChar kw
        \<and> wordBefore (if mid = [] then prev else Some (last mid)) \<noteq> wordAfter post))"
    by (simp add: keywordRe_def re_match_literal)
  show ?thesis
  proof
    assume ?L
    with L obtain mid post where m: "wordBefore prev \<noteq> wordAfter s" "s = mid @ post"
      "map toUpperChar mid = map toUpperChar kw"
      "wordBefore (if mid = [] then prev else Some (last mid)) \<noteq> wordAfter post" by blast
    from assms m(3) have ne: "mid \<noteq> []" by (auto simp: isKeyword_def)
    from assms m(3) have w: "list_all isWordChar mid" by (auto simp: isKeyword_def intro: ci_wordchars)
    from ne w have "isWordChar (hd mid)" "isWordChar (last mid)" by (auto simp: list_all_iff)
    with m ne have "\<not> wordBefore prev" "\<not> wordAfter post"
      by (auto simp: wordAfter_alt)
    with m show ?R by (auto simp: toUpperCase_def wordAfter_alt)
  next
    assume ?R
    then obtain mid post where m: "s = mid @ post" "toUpperCase mid = toUpperCase kw"
      "\<not> wordBefore prev" "post = [] \<or> \<not> isWordChar (hd post)" by blast
    from m(2) have eq: "map toUpperChar mid = map toUpperChar kw" by (simp add: toUpperCase_def)
    from assms eq have ne: "mid \<noteq> []" by (auto simp: isKeyword_def)
    from assms eq have w: "list_all isWordChar mid" by (auto simp: isKeyword_def intro: ci_wordchars)
    from ne w have hl: "isWordChar (hd mid)" "isWordChar (last mid)" by (auto simp: list_all_iff)
    have "wordBefore prev \<noteq> wordAfter s" using m(1,3) ne hl by (simp add: wordAfter_alt)
    moreover have "wordBefore (if mid = [] then prev else Some (last mid)) \<noteq> wordAfter post"
      using m(4) ne hl by (auto simp: wordAfter_alt)
    ultimately show ?L using L m(1) eq by blast
  qed
qed

lemma re_search_keyword:
  assumes "isKeyword kw"
  shows "re_search (keywordRe kw) prev s =
     (\<exists>pre mid post. s = pre @ mid @ post \<and> toUpperCase mid = toUpperCase kw
        \<and> \<not> wordBefore (if pre = [] then prev else Some (last pre))
        \<and> (post = [] \<or> \<not> isWordChar (hd post)))"
proof (induction s arbitrary: prev)
  case Nil
  show ?case by (simp add: re_match_keyword [OF assms]) 
next
  case (Cons c cs)
  have "re_search (keywordRe kw) prev (c # cs) =
      ((\<exists>mid post. c # cs = mid @ post \<and> toUpperCase mid = toUpperCase kw
          \<and> \<not> wordBefore prev \<and> (post = [] \<or> \<not> isWordChar (hd post)))
       \<or> (\<exists>pre mid post. cs = pre @ mid @ post \<and> toUpperCase mid = toUpperCase kw
          \<and> \<not> wordBefore (if pre = [] then Some c else Some (last pre))
          \<and> (post = [] \<or> \<not> isWordChar (hd post))))" (is "_ = (?A \<or> ?B)")
    by (simp add: re_match_keyword [OF assms] Cons.IH)
  also have "\<dots> = (\<exists>pre mid post. c # cs = pre @ mid @ post \<and> toUpperCase mid = toUpperCase kw
        \<and> \<not> wordBefore (if pre = [] then prev else Some (last pre))
        \<and> (post = [] \<or> \<not> isWordChar (hd post)))" (is "_ = ?R")
  proof
    assume "?A \<or> ?B"
    then show ?R
    proof
      assume ?A
      then obtain mid post where "c # cs = [] @ mid @ post" "toUpperCase mid = toUpperCase kw"
        "\<not> wordBefore (if ([]::string) = [] then prev else Some (last []))"
        "post = [] \<or> \<not> isWordChar (hd post)" by auto
      then show ?R by blast
    next
      assume ?B
      then obtain pre mid post where b: "cs = pre @ mid @ post" "toUpperCase mid = toUpperCase kw"
          "\<not> wordBefore (if pre = [] then Some c else Some (last pre))"
          "post = [] \<or> \<not> isWordChar (hd post)" by blast
      have "c # cs = (c # pre) @ mid @ post" using b(1) by simp
      moreover have "\<not> wordBefore (if c # pre = [] then prev else Some (last (c # pre)))"
        using b(3) by (cases pre) simp_all
      ultimately show ?R using b(2,4) by blast
    qed
  next
    assume ?R
    then obtain pre mid post where r: "c # cs = pre @ mid @ post" "toUpperCase mid = toUpperCase kw"
        "\<not> wordBefore (if pre = [] then prev else Some (last pre))"
        "post = [] \<or> \<not> isWordChar (hd post)" by blast
    show "?A \<or> ?B"
    proof (cases pre)
      case Nil
      with r have ?A by auto
      then show ?thesis ..
    next
      case (Cons d pre')
      with r(1) have dc: "d = c" "cs = pre' @ mid @ post" by simp_all
      have "\<not> wordBefore (if pre' = [] then Some c else Some (last pre'))"
        using r(3) Cons dc by (cases pre') simp_all
      with dc r(2,4) have ?B by blast
      then show ?thesis ..
    qed
  qed
  finally show ?case .
qed

lemma re_test_keyword:
  assumes "isKeyword kw"
  shows "re_test (keywordRe kw) q = occursAsWholeWord kw q"
proof -
  have "\<And>pre::string. (\<not> wordBefore (if pre = [] then None else Some (last pre))) = (pre = [] \<or> \<not> isWordChar (last pre))"
    by simp
  then show ?thesis
    unfolding re_test_def occursAsWholeWord_def re_search_keyword [OF assms] by simp
qed

subsection \<open>Case folding, prefixes and the keyword scan\<close>

lemma toUpperChar_fix: "c \<notin> set lowerLetters \<Longrightarrow> toUpperChar c = c"
  by (simp add: toUpperChar_def map_of_zip_is_None [THEN iffD2] lowerLetters_def upperLetters_def)

lemma toLowerChar_fix: "c \<notin> set upperLetters \<Longrightarrow> toLowerChar c = c"
  by (simp add: toLowerChar_def map_of_zip_is_None [THEN iffD2] lowerLetters_def upperLetters_def)

lemma toLower_toUpper: "toLowerChar (toUpperChar c) = toLowerChar c"
proof (cases "c \<in> set lowerLetters")
  case True
  then consider "c \<in> set (take 13 lowerLetters)" | "c \<in> set (drop 13 lowerLetters)"
    by (metis Un_iff append_take_drop_id set_append)
  then show ?thesis
    by cases (auto simp: lowerLetters_def toUpperChar_def toLowerChar_def upperLetters_def)
next
  case False
  then show ?thesis by (simp add: toUpperChar_fix)
qed

lemma toUpper_toLower: "toUpperChar (toLowerChar c) = toUpperChar c"
proof (cases "c \<in> set upperLetters")
  case True
  then consider "c \<in> set (take 13 upperLetters)" | "c \<in> set (drop 13 upperLetters)"
    by (metis Un_iff append_take_drop_id set_append)
  then show ?thesis
    by cases (auto simp: lowerLetters_def toUpperChar_def toLowerChar_def upperLetters_def)
next
  case False
  then show ?thesis by (simp add: toLowerChar_fix)
qed

lemma fold_char_eq: "(toLowerChar c = toLowerChar k) = (toUpperChar c = toUpperChar k)"
  by (metis toLower_toUpper toUpper_toLower)

lemma fold_eq: "(toLowerCase a = toLowerCase b) = (toUpperCase a = toUpperCase b)"
proof (induction a arbitrary: b)
  case Nil
  then show ?case by (simp add: toLowerCase_def toUpperCase_def)
next
  case (Cons c a)
  then show ?case
    by (cases b) (auto simp: toLowerCase_def toUpperCase_def fold_char_eq)
qed

lemma startsWith_prefix: "startsWith s p = prefix p s"
proof
  assume "startsWith s p"
  then have "s = p @ drop (length p) s" by (metis append_take_drop_id startsWith_def)
  then show "prefix p s" by (metis prefixI)
next
  assume "prefix p s"
  then show "startsWith s p" by (auto simp: prefix_def startsWith_def)
qed

lemma includesStr_sublist: "includesStr s sub = sublist sub s"
  by (induction s) (simp_all add: startsWith_prefix sublist_Cons_right)

lemma startsWith_upper: "startsWith (toUpperCase t) (toUpperCase kw) = beginsWithKeyword kw q"
  if "t = trim q"
  using that by (simp add: startsWith_prefix beginsWithKeyword_def)

lemma startsWith_lower:
  "startsWith (toLowerCase (trim q)) (toLowerCase kw) = beginsWithKeyword kw q"
proof -
  have "startsWith (toLowerCase (trim q)) (toLowerCase kw)
      = (toLowerCase (take (length kw) (trim q)) = toLowerCase kw)"
    by (simp add: startsWith_def toLowerCase_def take_map)
  also have "\<dots> = (toUpperCase (take (length kw) (trim q)) = toUpperCase kw)"
    by (rule fold_eq)
  also have "\<dots> = startsWith (toUpperCase (trim q)) (toUpperCase kw)"
    by (simp add: startsWith_def toUpperCase_def take_map)
  finally show ?thesis by (simp add: startsWith_prefix beginsWithKeyword_def)
qed

lemma upper_SELECT: "toUpperCase ''SELECT'' = ''SELECT''" by code_simp
lemma upper_WITH: "toUpperCase ''WITH'' = ''WITH''" by code_simp
lemma upper_EXPLAIN: "toUpperCase ''EXPLAIN'' = ''EXPLAIN''" by code_simp
lemma lower_SELECT: "toLowerCase ''SELECT'' = ''select''" by code_simp
lemma lower_WITH: "toLowerCase ''WITH'' = ''with''" by code_simp

lemma sqlite_leading:
  "(startsWith (toUpperCase (trim q)) ''SELECT'' \<or> startsWith (toUpperCase (trim q)) ''WITH''
      \<or> startsWith (toUpperCase (trim q)) ''EXPLAIN'') = beginsWithAllowed sqliteAllowedLeading q"
  using startsWith_upper [of "trim q" q "''SELECT''"] startsWith_upper [of "trim q" q "''WITH''"]
    startsWith_upper [of "trim q" q "''EXPLAIN''"]
  by (simp add: beginsWithAllowed_def sqliteAllowedLeading_def upper_SELECT upper_WITH upper_EXPLAIN)

lemma pg_leading:
  "(startsWith (toLowerCase (trim q)) ''select'' \<or> startsWith (toLowerCase (trim q)) ''with'')
     = beginsWithAllowed pgAllowedLeading q"
  using startsWith_lower [of q "''SELECT''"] startsWith_lower [of q "''WITH''"]
  by (simp add: beginsWithAllowed_def pgAllowedLeading_def lower_SELECT lower_WITH)

lemma firstForbidden_Some:
  "list_all isKeyword ks \<Longrightarrow> firstForbidden ks q = Some k \<Longrightarrow> k \<in> set ks \<and> occursAsWholeWord k q"
  by (induction ks) (auto simp: re_test_keyword split: if_splits)

lemma firstForbidden_None:
  "list_all isKeyword ks \<Longrightarrow> (firstForbidden ks q = None) = (\<forall>k\<in>set ks. \<not> occursAsWholeWord k q)"
  by (induction ks) (auto simp: re_test_keyword split: if_splits)

lemma sqlite_keywords: "list_all isKeyword sqliteDangerous" by code_simp
lemma pg_keywords: "list_all isKeyword pgDangerous" by code_simp

lemma readOnlyCheck_cases:
  "readOnlyCheck q =
     (if \<not> beginsWithAllowed sqliteAllowedLeading q then
        Inl ''Only SELECT, WITH, and EXPLAIN queries are allowed in read-only mode''
      else case firstForbidden sqliteDangerous q of
             Some keyword \<Rightarrow> Inl (''Query contains forbidden keyword: '' @ keyword)
           | None \<Rightarrow> if re_test multiStatementRe q then Inl ''Multiple statements are not allowed''
                     else Inr ())"
  unfolding readOnlyCheck_def Let_def sqlite_leading [symmetric] by simp

lemma pgGate_cases:
  "pgGate q =
     (case firstForbidden pgDangerous q of
        Some keyword \<Rightarrow>
          Some \<lparr>textOut = ''Error: Query contains forbidden keyword: '' @ toUpperCase keyword,
                isError = True\<rparr>
      | None \<Rightarrow>
          if \<not> beginsWithAllowed pgAllowedLeading q then
            Some \<lparr>textOut = ''Error: Only SELECT queries are allowed for safety. Use pg_describe_table for schema info.'',
                  isError = True\<rparr>
          else None)"
  unfolding pgGate_def Let_def pg_leading [symmetric] by simp

text \<open>
  C4. A query that begins with an allowed leading keyword is denied by the keyword scan
  exactly when some keyword of the deny-list occurs in it as a whole word, letter case
  ignored, and the reason then names a keyword that does occur so; a keyword that is
  only part of a longer word does not count
  (\<open>SELECT updated_at FROM users\<close> passes both gates).
\<close>

theorem keyword_scan_whole_word:
  "(beginsWithAllowed sqliteAllowedLeading q \<longrightarrow>
      (if \<exists>k\<in>set sqliteDangerous. occursAsWholeWord k q
       then \<exists>k\<in>set sqliteDangerous. occursAsWholeWord k q
              \<and> readOnlyCheck q = Inl (''Query contains forbidden keyword: '' @ k)
       else readOnlyCheck q =
              (if re_test multiStatementRe q then Inl ''Multiple statements are not allowed''
               else Inr ())))
   \<and> (beginsWithAllowed pgAllowedLeading q \<longrightarrow>
      (if \<exists>k\<in>set pgDangerous. occursAsWholeWord k q
       then \<exists>k\<in>set pgDangerous. occursAsWholeWord k q
              \<and> pgGate q = Some \<lparr>textOut = ''Error: Query contains forbidden keyword: '' @ toUpperCase k,
                                  isError = True\<rparr>
       else pgGate q = None))
   \<and> readOnlyCheck ''SELECT updated_at FROM users'' = Inr ()
   \<and> pgGate ''SELECT updated_at FROM users'' = None"
proof (intro conjI impI)
  assume a: "beginsWithAllowed sqliteAllowedLeading q"
  show "if \<exists>k\<in>set sqliteDangerous. occursAsWholeWord k q
       then \<exists>k\<in>set sqliteDangerous. occursAsWholeWord k q
              \<and> readOnlyCheck q = Inl (''Query contains forbidden keyword: '' @ k)
       else readOnlyCheck q =
              (if re_test multiStatementRe q then Inl ''Multiple statements are not allowed''
               else Inr ())"
  proof (cases "firstForbidden sqliteDangerous q")
    case None
    then show ?thesis
      using a firstForbidden_None [OF sqlite_keywords, of q] by (simp add: readOnlyCheck_cases)
  next
    case (Some k)
    then have "k \<in> set sqliteDangerous \<and> occursAsWholeWord k q"
      using firstForbidden_Some [OF sqlite_keywords] by blast
    moreover have "readOnlyCheck q = Inl (''Query contains forbidden keyword: '' @ k)"
      using a Some by (simp add: readOnlyCheck_cases)
    ultimately show ?thesis by auto
  qed
next
  assume a: "beginsWithAllowed pgAllowedLeading q"
  show "if \<exists>k\<in>set pgDangerous. occursAsWholeWord k q
       then \<exists>k\<in>set pgDangerous. occursAsWholeWord k q
              \<and> pgGate q = Some \<lparr>textOut = ''Error: Query contains forbidden keyword: '' @ toUpperCase k,
                                  isError = True\<rparr>
       else pgGate q = None"
  proof (cases "firstForbidden pgDangerous q")
    case None
    then show ?thesis
      using a firstForbidden_None [OF pg_keywords, of q] by (simp add: pgGate_cases)
  next
    case (Some k)
    then have "k \<in> set pgDangerous \<and> occursAsWholeWord k q"
      using firstForbidden_Some [OF pg_keywords] by blast
    moreover have "pgGate q = Some \<lparr>textOut = ''Error: Query contains forbidden keyword: '' @ toUpperCase k,
                                  isError = True\<rparr>"
      using Some by (simp add: pgGate_cases)
    ultimately show ?thesis by auto
  qed
next
  show "readOnlyCheck ''SELECT updated_at FROM users'' = Inr ()" by code_simp
next
  show "pgGate ''SELECT updated_at FROM users'' = None" by code_simp
qed

theorem keyword_scan_whole_word_witness:
  "beginsWithAllowed sqliteAllowedLeading ''SELECT * FROM users WHERE id IN (DELETE FROM other)''
   \<and> (\<exists>k\<in>set sqliteDangerous.
         occursAsWholeWord k ''SELECT * FROM users WHERE id IN (DELETE FROM other)''
         \<and> readOnlyCheck ''SELECT * FROM users WHERE id IN (DELETE FROM other)''
             = Inl (''Query contains forbidden keyword: '' @ k))
   \<and> beginsWithAllowed pgAllowedLeading ''SELECT * FROM users WHERE id IN (DELETE FROM other)''
   \<and> (\<exists>k\<in>set pgDangerous.
         occursAsWholeWord k ''SELECT * FROM users WHERE id IN (DELETE FROM other)''
         \<and> pgGate ''SELECT * FROM users WHERE id IN (DELETE FROM other)''
             = Some \<lparr>textOut = ''Error: Query contains forbidden keyword: '' @ toUpperCase k,
                     isError = True\<rparr>)"
proof -
  let ?q = "''SELECT * FROM users WHERE id IN (DELETE FROM other)''"
  have b1: "beginsWithAllowed sqliteAllowedLeading ?q" by code_simp
  have b2: "beginsWithAllowed pgAllowedLeading ?q" by code_simp
  have "re_test (keywordRe ''DELETE'') ?q" by code_simp
  moreover have "isKeyword ''DELETE''" by code_simp
  ultimately have w1: "occursAsWholeWord ''DELETE'' ?q" by (simp add: re_test_keyword)
  have "re_test (keywordRe ''delete'') ?q" by code_simp
  moreover have "isKeyword ''delete''" by code_simp
  ultimately have w2: "occursAsWholeWord ''delete'' ?q" by (simp add: re_test_keyword)
  have e1: "\<exists>k\<in>set sqliteDangerous. occursAsWholeWord k ?q"
    using w1 by (auto simp: sqliteDangerous_def)
  have e2: "\<exists>k\<in>set pgDangerous. occursAsWholeWord k ?q"
    using w2 by (auto simp: pgDangerous_def)
  from keyword_scan_whole_word [of ?q] b1 b2 e1 e2 show ?thesis by presburger
qed

subsection \<open>Identifier quoter\<close>

lemma parseQuotedBody_plain:
  "c \<noteq> CHR 0x22 \<Longrightarrow> xs \<noteq> [] \<Longrightarrow>
     parseQuotedBody (c # xs) = map_option ((#) c) (parseQuotedBody xs)"
  by (cases xs) simp_all

lemma parseQuotedBody_replaceAll:
  "parseQuotedBody (replaceAllQuotes s @ [CHR 0x22]) = Some s"
  by (induction s) (simp_all add: parseQuotedBody_plain)

text \<open>
  C3. For every string \<open>s\<close>, with or without double quotes inside, reading
  \<open>quoteIdentifier s\<close> by the identifier-quoting grammar gives back exactly \<open>s\<close>.
  \<open>quoteIdentifier\<close> is a total function: it has a value on every string.
\<close>

theorem quoteIdentifier_roundtrip:
  "parseQuotedIdentifier (quoteIdentifier s) = Some s"
  by (simp add: quoteIdentifier_def parseQuotedBody_replaceAll)

subsection \<open>Identifier validator\<close>

text \<open>
  C7. \<open>validateIdentifier\<close> returns the name exactly when the name matches the strict
  grammar or the loose grammar, and throws the invalid-name error otherwise; so
  \<open>123table\<close> is accepted, and every name that contains one of
  \<open>; ' " ( ) / \\<close> or a control character is rejected.
\<close>

theorem validateIdentifier_grammar:
  "validateIdentifier s kind =
     (if matchesStrict s \<or> matchesLoose s then Inr s
      else Inl (''Invalid '' @ kindName kind @ '' name: contains disallowed characters''))
   \<and> validateIdentifier ''123table'' kind = Inr ''123table''
   \<and> ((\<exists>c\<in>set s. c \<in> set disallowedChars \<union> set controlChars) \<longrightarrow>
        validateIdentifier s kind =
          Inl (''Invalid '' @ kindName kind @ '' name: contains disallowed characters''))"
proof (intro conjI impI)
  show "validateIdentifier s kind =
     (if matchesStrict s \<or> matchesLoose s then Inr s
      else Inl (''Invalid '' @ kindName kind @ '' name: contains disallowed characters''))"
    by (rule validateIdentifier_eq)
next
  have "matchesLoose ''123table''" by code_simp
  then show "validateIdentifier ''123table'' kind = Inr ''123table''"
    by (simp add: validateIdentifier_eq)
next
  assume "\<exists>c\<in>set s. c \<in> set disallowedChars \<union> set controlChars"
  then have "\<not> matchesStrict s \<and> \<not> matchesLoose s" using bad_rejected by blast
  then show "validateIdentifier s kind =
          Inl (''Invalid '' @ kindName kind @ '' name: contains disallowed characters'')"
    by (simp add: validateIdentifier_eq)
qed

theorem validateIdentifier_grammar_witness:
  "(\<exists>c\<in>set ''users; DROP TABLE users''. c \<in> set disallowedChars \<union> set controlChars)
   \<and> validateIdentifier ''users; DROP TABLE users'' Table =
       Inl ''Invalid table name: contains disallowed characters''"
proof -
  have "CHR '';'' \<in> set ''users; DROP TABLE users''" by simp
  moreover have "CHR '';'' \<in> set disallowedChars \<union> set controlChars"
    by (simp add: disallowedChars_def)
  ultimately have h: "\<exists>c\<in>set ''users; DROP TABLE users''. c \<in> set disallowedChars \<union> set controlChars"
    by blast
  from validateIdentifier_grammar [of "''users; DROP TABLE users''" Table] h
  have "validateIdentifier ''users; DROP TABLE users'' Table =
          Inl (''Invalid '' @ kindName Table @ '' name: contains disallowed characters'')"
    by blast
  then have "validateIdentifier ''users; DROP TABLE users'' Table =
          Inl ''Invalid table name: contains disallowed characters''"
    by simp
  with h show ?thesis by (rule conjI)
qed

subsection \<open>Query policy gate\<close>




subsection \<open>Result windower\<close>

lemma sliceTo_nonneg: "0 \<le> n \<Longrightarrow> sliceTo xs n = take (nat n) xs"
  by (simp add: sliceTo_def)

text \<open>
  C6. For every sequence of rows and every cap (a row count, so not negative),
  the windower returns the first \<open>cap\<close> rows in their order, \<open>min total cap\<close> of them,
  with the count before windowing and \<open>truncated\<close> exactly when that count exceeds the
  cap; this is what \<open>executeQuery\<close> returns for the rows of the engine. 150 rows at cap
  100 give the first 100, total 150, truncated; 50 rows at cap 100 give all 50,
  not truncated.
\<close>

theorem result_window:
  "(0 \<le> MAX_ROWS env \<longrightarrow>
       rows (windowRows env xs) = take (nat (MAX_ROWS env)) xs
     \<and> length (rows (windowRows env xs)) = min (length xs) (nat (MAX_ROWS env))
     \<and> rowCount (windowRows env xs) = length xs
     \<and> QueryResult.truncated (windowRows env xs) = (int (length xs) > MAX_ROWS env))
   \<and> (getDatabase env = Inr () \<and> (READ_ONLY env \<longrightarrow> readOnlyCheck sql = Inr ())
        \<and> prepareAll env sql = Inr xs \<longrightarrow> executeQuery env sql = Inr (windowRows env xs))
   \<and> rows (windowRows exampleSqliteEnv [1..150]) = [1..100]
   \<and> rowCount (windowRows exampleSqliteEnv [1..150]) = 150
   \<and> QueryResult.truncated (windowRows exampleSqliteEnv [1..150])
   \<and> rows (windowRows exampleSqliteEnv [1..50]) = [1..50]
   \<and> rowCount (windowRows exampleSqliteEnv [1..50]) = 50
   \<and> \<not> QueryResult.truncated (windowRows exampleSqliteEnv [1..50])"
proof (intro conjI impI)
  assume "0 \<le> MAX_ROWS env"
  then show "rows (windowRows env xs) = take (nat (MAX_ROWS env)) xs"
    by (simp add: windowRows_def Let_def sliceTo_nonneg)
  then show "length (rows (windowRows env xs)) = min (length xs) (nat (MAX_ROWS env))"
    by simp
next
  show "rowCount (windowRows env xs) = length xs" by (simp add: windowRows_def Let_def)
next
  show "QueryResult.truncated (windowRows env xs) = (int (length xs) > MAX_ROWS env)"
    by (simp add: windowRows_def Let_def)
next
  assume "getDatabase env = Inr () \<and> (READ_ONLY env \<longrightarrow> readOnlyCheck sql = Inr ())
        \<and> prepareAll env sql = Inr xs"
  then show "executeQuery env sql = Inr (windowRows env xs)"
    by (simp add: executeQuery_def)
next
  show "rows (windowRows exampleSqliteEnv [1..150]) = [1..100]" by code_simp
next
  show "rowCount (windowRows exampleSqliteEnv [1..150]) = 150" by code_simp
next
  show "QueryResult.truncated (windowRows exampleSqliteEnv [1..150])" by code_simp
next
  show "rows (windowRows exampleSqliteEnv [1..50]) = [1..50]" by code_simp
next
  show "rowCount (windowRows exampleSqliteEnv [1..50]) = 50" by code_simp
next
  show "\<not> QueryResult.truncated (windowRows exampleSqliteEnv [1..50])" by code_simp
qed

theorem result_window_witness:
  "0 \<le> MAX_ROWS exampleSqliteEnv
   \<and> rows (windowRows exampleSqliteEnv [10, 20, 30]) = take 100 [10, 20, 30]
   \<and> getDatabase exampleSqliteEnv = Inr ()
   \<and> READ_ONLY exampleSqliteEnv
   \<and> readOnlyCheck ''SELECT 1'' = Inr ()
   \<and> prepareAll exampleSqliteEnv ''SELECT 1'' = Inr []
   \<and> executeQuery exampleSqliteEnv ''SELECT 1'' = Inr (windowRows exampleSqliteEnv [])"
proof -
  have h1: "0 \<le> MAX_ROWS exampleSqliteEnv" by (simp add: exampleSqliteEnv_def)
  have h2: "getDatabase exampleSqliteEnv = Inr ()" by (simp add: exampleSqliteEnv_def)
  have h3: "readOnlyCheck ''SELECT 1'' = Inr ()" by code_simp
  have h4: "prepareAll exampleSqliteEnv ''SELECT 1'' = Inr []" by (simp add: exampleSqliteEnv_def)
  have m: "nat (MAX_ROWS exampleSqliteEnv) = 100" by (simp add: exampleSqliteEnv_def)
  from result_window [of exampleSqliteEnv "[10, 20, 30]" "''SELECT 1''"] h1 m
  have a: "rows (windowRows exampleSqliteEnv [10, 20, 30]) = take 100 [10, 20, 30]" by simp
  from result_window [of exampleSqliteEnv "[]" "''SELECT 1''"] h2 h3 h4
  have b: "executeQuery exampleSqliteEnv ''SELECT 1'' = Inr (windowRows exampleSqliteEnv [])"
    by simp
  have h5: "READ_ONLY exampleSqliteEnv" by (simp add: exampleSqliteEnv_def)
  from h1 h2 h3 h4 h5 a b show ?thesis by simp
qed

subsection \<open>Row cap of \<open>pg_query\<close>\<close>

lemma pgSafeQuery_sublist:
  "pgSafeQuery query limit =
     (if sublist ''limit'' (toLowerCase (trim query)) then query
      else query @ '' LIMIT '' @ showInt limit)"
  by (simp add: pgSafeQuery_def includesStr_sublist)

lemma pgTransaction_sent:
  "clientQuery env ''BEGIN TRANSACTION READ ONLY'' = Inr r0 \<Longrightarrow>
     take 2 (snd (pgTransaction env safeQuery)) = [''BEGIN TRANSACTION READ ONLY'', safeQuery]"
  by (simp add: pgTransaction_def split: sum.splits)

text \<open>
  C9. Once the gate has let a query through and the transaction has begun, the
  statement \<open>pg_query\<close> sends to the database is the query itself when the lowercased
  trimmed query contains \<open>limit\<close> anywhere, and the query followed by \<open>LIMIT n\<close>
  otherwise. So an allowed query that merely names \<open>rate_limit\<close> is run without a
  row cap.
\<close>

theorem pg_query_limit:
  "(pgGate query = None \<and> poolConnect env = Inr ()
      \<and> clientQuery env ''BEGIN TRANSACTION READ ONLY'' = Inr r0 \<longrightarrow>
      take 2 (snd (pg_query env query limitArg)) =
        [''BEGIN TRANSACTION READ ONLY'',
         if sublist ''limit'' (toLowerCase (trim query)) then query
         else query @ '' LIMIT '' @ showInt (case limitArg of None \<Rightarrow> 100 | Some l \<Rightarrow> l)])
   \<and> pgGate ''SELECT rate_limit FROM api_usage'' = None
   \<and> pgSafeQuery ''SELECT rate_limit FROM api_usage'' 100 = ''SELECT rate_limit FROM api_usage''
   \<and> pgSafeQuery ''SELECT id FROM api_usage'' 100 = ''SELECT id FROM api_usage LIMIT 100''"
proof (intro conjI impI)
  assume a: "pgGate query = None \<and> poolConnect env = Inr ()
      \<and> clientQuery env ''BEGIN TRANSACTION READ ONLY'' = Inr r0"
  let ?limit = "case limitArg of None \<Rightarrow> 100 | Some l \<Rightarrow> l"
  have "snd (pg_query env query limitArg) = snd (pgTransaction env (pgSafeQuery query ?limit))"
    using a by (simp add: pg_query_def Let_def split: prod.splits sum.splits)
  then show "take 2 (snd (pg_query env query limitArg)) =
        [''BEGIN TRANSACTION READ ONLY'',
         if sublist ''limit'' (toLowerCase (trim query)) then query
         else query @ '' LIMIT '' @ showInt ?limit]"
    using a pgTransaction_sent [of env r0 "pgSafeQuery query ?limit"]
    by (simp only: pgSafeQuery_sublist)
next
  show "pgGate ''SELECT rate_limit FROM api_usage'' = None" by code_simp
next
  show "pgSafeQuery ''SELECT rate_limit FROM api_usage'' 100 = ''SELECT rate_limit FROM api_usage''"
    by code_simp
next
  show "pgSafeQuery ''SELECT id FROM api_usage'' 100 = ''SELECT id FROM api_usage LIMIT 100''"
    by code_simp
qed

theorem pg_query_limit_witness:
  "pgGate ''SELECT rate_limit FROM api_usage'' = None
   \<and> poolConnect examplePgEnv = Inr ()
   \<and> clientQuery examplePgEnv ''BEGIN TRANSACTION READ ONLY'' = Inr ''BEGIN TRANSACTION READ ONLY''
   \<and> sublist ''limit'' (toLowerCase (trim ''SELECT rate_limit FROM api_usage''))
   \<and> take 2 (snd (pg_query examplePgEnv ''SELECT rate_limit FROM api_usage'' None)) =
       [''BEGIN TRANSACTION READ ONLY'', ''SELECT rate_limit FROM api_usage'']"
proof -
  have h1: "pgGate ''SELECT rate_limit FROM api_usage'' = None" by code_simp
  have h2: "poolConnect examplePgEnv = Inr ()" by (simp add: examplePgEnv_def)
  have h3: "clientQuery examplePgEnv ''BEGIN TRANSACTION READ ONLY'' = Inr ''BEGIN TRANSACTION READ ONLY''"
    by (simp add: examplePgEnv_def)
  have h4: "sublist ''limit'' (toLowerCase (trim ''SELECT rate_limit FROM api_usage''))"
    by code_simp
  from pg_query_limit [of "''SELECT rate_limit FROM api_usage''" examplePgEnv
      "''BEGIN TRANSACTION READ ONLY''" None] h1 h2 h3 h4
  have "take 2 (snd (pg_query examplePgEnv ''SELECT rate_limit FROM api_usage'' None)) =
       [''BEGIN TRANSACTION READ ONLY'', ''SELECT rate_limit FROM api_usage'']"
    by presburger
  with h1 h2 h3 h4 show ?thesis by blast
qed

subsection \<open>Path confinement resolver\<close>

lemma resolvePath_accept_iff:
  "(\<exists>p. resolvePath env inputPath = Inr p) =
     prefix (pathResolve (cwd env) [FS_ROOT env])
       (pathResolve (cwd env)
          [pathResolve (cwd env) [FS_ROOT env, replaceLeadingTilde inputPath (homedir env)]])"
  by (simp add: resolvePath_def Let_def startsWith_prefix)

lemma resolvePath_test_confined:
  "resolvePath_test home workdir inputPath fsRoot = Inr p \<Longrightarrow>
     p = pathResolve workdir [fsRoot] \<or> prefix (pathResolve workdir [fsRoot] @ ''/'') p"
  by (auto simp: resolvePath_test_def Let_def startsWith_prefix split: if_splits)

text \<open>
  C1 asks that an accepted path equal the canonical root or begin with the root
  followed by a separator, so that a sibling of the root sharing its name as a prefix
  is denied. \<open>resolvePath\<close> tests \<open>startsWith(normalizedRoot)\<close> alone: with root
  \<open>/tmp/root\<close> the input \<open>../rootbackup/secret.txt\<close> resolves to
  \<open>/tmp/rootbackup/secret.txt\<close> and is accepted, although that path is neither the root
  nor below it. The copy of the function in the tests has the separator in its test
  and denies the same input.
\<close>

theorem resolvePath_accepts_sibling:
  "resolvePath tmpRootEnv ''../rootbackup/secret.txt'' = Inr ''/tmp/rootbackup/secret.txt''
   \<and> pathResolve (cwd tmpRootEnv) [FS_ROOT tmpRootEnv] = ''/tmp/root''
   \<and> ''/tmp/rootbackup/secret.txt'' \<noteq> ''/tmp/root''
   \<and> \<not> prefix (''/tmp/root'' @ ''/'') ''/tmp/rootbackup/secret.txt''
   \<and> resolvePath_test ''/home/user'' ''/srv/app'' ''../rootbackup/secret.txt'' ''/tmp/root''
        = Inl ''Access denied: path is outside root directory''"
  by code_simp

subsection \<open>UTF-8 decoding never lengthens\<close>

lemma toUtf16_small: "cp < 0x10000 \<Longrightarrow> length (toUtf16 cp) = 1"
  by (simp add: toUtf16_def)









subsection \<open>Bounded content reader\<close>








subsection \<open>\<open>read_files\<close>\<close>

lemma readFilesLoop_map:
  "readFilesLoop env paths outputs = outputs @ map (readFilesEntry env) paths"
  by (induction paths arbitrary: outputs) simp_all

lemma sliceTo_10: "sliceTo paths 10 = take 10 paths"
  by (simp add: sliceTo_def)

lemma bufferToString_hi: "bufferToString [0x68, 0x69] = [104, 105]"
  by (simp add: bufferToString_def decodeStep_def toUtf16_def)

lemma readFilesEntry_text:
  "readFilesEntry sampleFsEnv ''a.txt'' =
     utf16 (''## a.txt'' @ newline @ fence @ newline) @ [104, 105] @ utf16 (newline @ fence)"
proof -
  have r: "resolvePath sampleFsEnv ''a.txt'' = Inr ''/tmp/root/a.txt''" by code_simp
  have f: "readFileContent sampleFsEnv ''/tmp/root/a.txt'' =
             Inr \<lparr>content = [104, 105], truncated = False, binary = False\<rparr>"
    by (simp add: readFileContent_def sampleFsEnv_def isBinaryFile_def bufferToString_hi)
  have a: "access sampleFsEnv ''/tmp/root/a.txt'' = Inr ()"
    by (simp add: access_def sampleFsEnv_def)
  show ?thesis by (simp add: readFilesEntry_def r f a)
qed

lemma readFilesEntry_denied:
  "readFilesEntry sampleFsEnv ''../../etc/passwd'' =
     utf16 (''## ../../etc/passwd'' @ newline
              @ ''Error: Access denied: path is outside root directory'')"
proof -
  have r: "resolvePath sampleFsEnv ''../../etc/passwd'' =
             Inl ''Access denied: path is outside root directory''" by code_simp
  show ?thesis by (simp add: readFilesEntry_def r)
qed

text \<open>
  C10. \<open>read_files\<close> works on the first ten paths only: its response is the entries of
  the first ten paths, one for each and in order, joined by the separator; so there are
  at most ten entries, and paths after the tenth change nothing in the response: no
  entry and no error.
\<close>

theorem read_files_first_ten:
  "read_files env paths =
     join (utf16 (newline @ newline @ ''---'' @ newline @ newline))
       (map (readFilesEntry env) (take 10 paths))
   \<and> readFilesLoop env (sliceTo paths 10) [] = map (readFilesEntry env) (take 10 paths)
   \<and> length (readFilesLoop env (sliceTo paths 10) []) = min (length paths) 10
   \<and> read_files env paths = read_files env (take 10 paths)
   \<and> (length paths = 10 \<longrightarrow> read_files env (paths @ extra) = read_files env paths)"
  by (simp add: read_files_def readFilesLoop_map sliceTo_10)

theorem read_files_first_ten_witness:
  "length [''a.txt'', ''b/c.txt'', ''notes.txt'', ''blob.bin'', ''d'', ''e'', ''f.md'', ''g.md'', ''h'', ''i.log''] = 10
   \<and> read_files sampleFsEnv
        ([''a.txt'', ''b/c.txt'', ''notes.txt'', ''blob.bin'', ''d'', ''e'', ''f.md'', ''g.md'', ''h'', ''i.log'']
           @ [''k.txt'', ''../../etc/passwd''])
      = read_files sampleFsEnv [''a.txt'', ''b/c.txt'', ''notes.txt'', ''blob.bin'', ''d'', ''e'', ''f.md'', ''g.md'', ''h'', ''i.log'']
   \<and> read_files sampleFsEnv [''a.txt'', ''../../etc/passwd''] =
       utf16 (''## a.txt'' @ newline @ fence @ newline) @ [104, 105] @ utf16 (newline @ fence)
       @ utf16 (newline @ newline @ ''---'' @ newline @ newline)
       @ utf16 (''## ../../etc/passwd'' @ newline
                  @ ''Error: Access denied: path is outside root directory'')"
proof -
  have h: "length [''a.txt'', ''b/c.txt'', ''notes.txt'', ''blob.bin'', ''d'', ''e'', ''f.md'', ''g.md'', ''h'', ''i.log''] = 10"
    by simp
  from read_files_first_ten [of sampleFsEnv
      "[''a.txt'', ''b/c.txt'', ''notes.txt'', ''blob.bin'', ''d'', ''e'', ''f.md'', ''g.md'', ''h'', ''i.log'']"
      "[''k.txt'', ''../../etc/passwd'']"] h
  have one: "read_files sampleFsEnv
        ([''a.txt'', ''b/c.txt'', ''notes.txt'', ''blob.bin'', ''d'', ''e'', ''f.md'', ''g.md'', ''h'', ''i.log'']
           @ [''k.txt'', ''../../etc/passwd''])
      = read_files sampleFsEnv [''a.txt'', ''b/c.txt'', ''notes.txt'', ''blob.bin'', ''d'', ''e'', ''f.md'', ''g.md'', ''h'', ''i.log'']"
    by blast
  from read_files_first_ten [of sampleFsEnv "[''a.txt'', ''../../etc/passwd'']" "[]"]
  have "read_files sampleFsEnv [''a.txt'', ''../../etc/passwd''] =
     join (utf16 (newline @ newline @ ''---'' @ newline @ newline))
       (map (readFilesEntry sampleFsEnv) (take 10 [''a.txt'', ''../../etc/passwd'']))"
    by blast
  then have two: "read_files sampleFsEnv [''a.txt'', ''../../etc/passwd''] =
       utf16 (''## a.txt'' @ newline @ fence @ newline) @ [104, 105] @ utf16 (newline @ fence)
       @ utf16 (newline @ newline @ ''---'' @ newline @ newline)
       @ utf16 (''## ../../etc/passwd'' @ newline
                  @ ''Error: Access denied: path is outside root directory'')"
    by (simp add: readFilesEntry_text readFilesEntry_denied)
  from h one two show ?thesis by blast
qed

subsection \<open>Tool-call boundary\<close>

lemma sqliteHandler_returns: "\<exists>r. sqliteHandler env formatTable otherTool call = Inr r"
  by (simp add: sqliteHandler_def split: sum.split)

lemma fsHandler_returns: "\<exists>r. fsHandler env otherTool call = Inr r"
  by (simp add: fsHandler_def split: sum.split)

lemma sqliteHandler_denied_query:
  "getDatabase env = Inr () \<Longrightarrow> READ_ONLY env \<Longrightarrow> readOnlyCheck sql = Inl reason \<Longrightarrow>
     sqliteHandler env formatTable otherTool (Query sql) = Inr (''Error: '' @ reason)"
  by (simp add: sqliteHandler_def sqliteToolBody_def executeQuery_def)

lemma fsHandler_outside_root:
  "resolvePath env p = Inl reason \<Longrightarrow>
     fsHandler env otherTool (ReadFile p) = Inr (utf16 (''Error: '' @ reason))"
  by (simp add: fsHandler_def fsToolBody_def read_file_def)

lemma obsidianHandler_listing_error:
  "name \<in> set obsidianTools \<Longrightarrow>
   \<not> (dateNow env - lastCacheUpdate st < CACHE_TTL \<and> noteCache st \<noteq> []) \<Longrightarrow>
   getAllMarkdownFiles (vault env) (VAULT_PATH env) [] = Inl e \<Longrightarrow>
     obsidianHandler env st name args = Inl e"
  by (simp add: obsidianHandler_def refreshCache_def)

text \<open>
  C8 asks that in every adapter a resource error be caught at the tool-call boundary and
  come back as an error response. The handlers of sqlite-mcp and filesystem-mcp wrap
  their \<open>switch\<close> in \<open>try / catch\<close> and always return a response. The handler of
  obsidian-mcp has no \<open>try\<close>: with a sub-directory of the vault that cannot be listed,
  \<open>search_notes\<close> on a stale cache throws the error of \<open>readdirSync\<close> out of the handler.
\<close>

theorem obsidianHandler_throws:
  "obsidianHandler lockedVaultEnv initialObsidianState ''search_notes'' ''plan''
     = Inl ''EACCES: permission denied, scandir /vault/private''"
  by (simp add: obsidianHandler_def obsidianTools_def refreshCache_def lockedVaultEnv_def
        initialObsidianState_def CACHE_TTL_def startsWith_def)

end
